theory Spec2Isabelle
  imports Main "HOL-Library.Word"
begin

section \<open>Strings\<close>

text \<open>
  A JavaScript string is a sequence of UTF-16 code units: \<open>length\<close>, \<open>slice\<close>,
  \<open>endsWith\<close>, \<open>includes\<close> and the regular expressions of the route (none has the
  \<open>u\<close> flag) all count and compare code units. \<open>ustr\<close> embeds an ASCII literal of the
  source.
\<close>

type_synonym jschar = "16 word"
type_synonym jsstring = "jschar list"

definition ustr :: "string \<Rightarrow> jsstring" where
  "ustr s = map (\<lambda>c. of_char c) s"

text \<open>
  \<open>String.prototype.trim\<close> strips the code units of WhiteSpace and LineTerminator
  (ECMAScript 12.2, 12.3) from both ends.
\<close>

definition isWhiteSpace :: "jschar \<Rightarrow> bool" where
  "isWhiteSpace c \<longleftrightarrow>
     c \<in> set [0x0009, 0x000A, 0x000B, 0x000C, 0x000D, 0x0020, 0x00A0, 0x1680,
               0x2000, 0x2001, 0x2002, 0x2003, 0x2004, 0x2005, 0x2006, 0x2007,
               0x2008, 0x2009, 0x200A, 0x2028, 0x2029, 0x202F, 0x205F, 0x3000, 0xFEFF]"

definition trim :: "jsstring \<Rightarrow> jsstring" where
  "trim s = rev (dropWhile isWhiteSpace (rev (dropWhile isWhiteSpace s)))"

definition startsWith :: "jsstring \<Rightarrow> jsstring \<Rightarrow> bool" where
  "startsWith s p \<longleftrightarrow> take (length p) s = p"

definition endsWith :: "jsstring \<Rightarrow> jsstring \<Rightarrow> bool" where
  "endsWith s p \<longleftrightarrow> length p \<le> length s \<and> drop (length s - length p) s = p"

fun includesStr :: "jsstring \<Rightarrow> jsstring \<Rightarrow> bool" where
  "includesStr [] p = (p = [])"
| "includesStr (x # xs) p = (startsWith (x # xs) p \<or> includesStr xs p)"

text \<open>
  \<open>toLowerCase\<close> is used by the route only to compare the end of a file name with
  \<open>.pdf\<close>, \<open>.docx\<close> and \<open>.doc\<close>. The model lowers the letters A to Z and leaves every
  other code unit alone. The Unicode mapping also changes code units above 127, but
  none of them is lowered to one of the ASCII characters of these three suffixes, so
  every \<open>endsWith\<close> test of the route has the same result.
\<close>

definition lower_cu :: "jschar \<Rightarrow> jschar" where
  "lower_cu c = (if 0x41 \<le> c \<and> c \<le> 0x5A then c + 0x20 else c)"

definition toLowerCase :: "jsstring \<Rightarrow> jsstring" where
  "toLowerCase s = map lower_cu s"

section \<open>Regular expressions\<close>

text \<open>
  The three patterns of the route, \<open>/\.(pdf|docx?|rtf)$/i\<close>, \<open>/\.doc$/i\<close> and
  \<open>/late fee/i\<close>, use literal characters, sequence, alternative, the optional
  quantifier and the end anchor, all with the \<open>i\<close> flag and without \<open>g\<close>, \<open>m\<close>,
  \<open>u\<close> or \<open>y\<close>: \<open>test\<close> starts at index 0 whatever happened before and \<open>$\<close>
  matches at the end of the input only.

  With \<open>i\<close> and without \<open>u\<close> two code units match when their Canonicalize values
  are equal (ECMAScript 22.2.2.7.3): the upper-case mapping, except that a code unit
  above 127 is never mapped to one below 128. Every character of the three patterns
  is ASCII, so the only code units that match a pattern letter are its two ASCII
  cases; \<open>Canonicalize\<close> below maps a to z to upper case and leaves the rest alone,
  which gives exactly these comparisons.
\<close>

datatype regex =
    Eps
  | Chr jschar
  | Seq regex regex
  | Alt regex regex
  | Opt regex
  | EndAnchor

definition Canonicalize :: "jschar \<Rightarrow> jschar" where
  "Canonicalize c = (if 0x61 \<le> c \<and> c \<le> 0x7A then c - 0x20 else c)"

text \<open>
  \<open>rmatch r s\<close> lists, in the order the backtracking matcher tries them, the rests
  of \<open>s\<close> after each way of matching \<open>r\<close> at its start.
\<close>

fun rmatch :: "regex \<Rightarrow> jsstring \<Rightarrow> jsstring list" where
  "rmatch Eps s = [s]"
| "rmatch (Chr c) [] = []"
| "rmatch (Chr c) (x # xs) = (if Canonicalize x = Canonicalize c then [xs] else [])"
| "rmatch (Seq a b) s = concat (map (rmatch b) (rmatch a s))"
| "rmatch (Alt a b) s = rmatch a s @ rmatch b s"
| "rmatch (Opt a) s = rmatch a s @ [s]"
| "rmatch EndAnchor s = (if s = [] then [[]] else [])"

fun regex_test :: "regex \<Rightarrow> jsstring \<Rightarrow> bool" where
  "regex_test r [] = (rmatch r [] \<noteq> [])"
| "regex_test r (x # xs) = (rmatch r (x # xs) \<noteq> [] \<or> regex_test r xs)"

fun Lits :: "jsstring \<Rightarrow> regex" where
  "Lits [] = Eps"
| "Lits (c # cs) = Seq (Chr c) (Lits cs)"

definition allowed :: regex where
  "allowed =
     Seq (Chr 0x2E)
       (Seq (Alt (Lits (ustr ''pdf''))
               (Alt (Seq (Lits (ustr ''doc'')) (Opt (Chr 0x78))) (Lits (ustr ''rtf''))))
          EndAnchor)"

definition dot_doc :: regex where
  "dot_doc = Seq (Lits (ustr ''.doc'')) EndAnchor"

definition late_fee :: regex where
  "late_fee = Lits (ustr ''late fee'')"

section \<open>JSON values\<close>

text \<open>
  What \<open>JSON.parse\<close> returns and \<open>JSON.stringify\<close> writes. The numbers are IEEE
  doubles; the model keeps them abstract (the type \<open>'n\<close>) and takes the two things
  the route can observe of a number as parameters: its decimal rendering
  \<open>Number::toString\<close> and whether it is finite (\<open>JSON.parse\<close> reads \<open>1e999\<close> as
  \<open>Infinity\<close>, which \<open>JSON.stringify\<close> writes as \<open>null\<close>). An object is the list of
  its own properties in enumeration order.
\<close>

datatype 'n json =
    JNull
  | JBool bool
  | JNum 'n
  | JStr jsstring
  | JArr "'n json list"
  | JObj "(jsstring \<times> 'n json) list"

text \<open>
  Property access \<open>v.k\<close> on a value that is neither \<open>null\<close> nor \<open>undefined\<close>;
  \<open>None\<close> is \<open>undefined\<close>. The route reads only the names \<open>snapshot\<close>, \<open>risks\<close>,
  \<open>counters\<close> and the nine snapshot fields, none of which is a property of
  \<open>Object.prototype\<close>, \<open>Array.prototype\<close>, \<open>String.prototype\<close>,
  \<open>Number.prototype\<close> or \<open>Boolean.prototype\<close>: only an own property of an object
  is found.
\<close>

fun Get :: "'n json \<Rightarrow> jsstring \<Rightarrow> 'n json option" where
  "Get (JObj kvs) k = map_of kvs k"
| "Get _ k = None"

text \<open>Optional chaining \<open>v?.k\<close>.\<close>

fun optGet :: "'n json option \<Rightarrow> jsstring \<Rightarrow> 'n json option" where
  "optGet None k = None"
| "optGet (Some JNull) k = None"
| "optGet (Some v) k = Get v k"

text \<open>
  \<open>ToString\<close> (what \<open>String(v)\<close> and \<open>RegExp.prototype.test(v)\<close> apply to a value
  that is not a string already); \<open>None\<close> is a thrown TypeError.
  An array is joined with commas, \<open>null\<close> elements giving the empty string
  (\<open>Array.prototype.join\<close>). A parsed object has no callable property, so an own
  property \<open>toString\<close> hides \<open>Object.prototype.toString\<close> and the conversion
  throws (\<open>Object.prototype.valueOf\<close> returns the object itself); every other
  object is \<open>[object Object]\<close>.
\<close>

fun ToString :: "('n \<Rightarrow> jsstring) \<Rightarrow> 'n json \<Rightarrow> jsstring option"
  and ArrayJoin :: "('n \<Rightarrow> jsstring) \<Rightarrow> 'n json list \<Rightarrow> jsstring option" where
  "ToString nts JNull = Some (ustr ''null'')"
| "ToString nts (JBool b) = Some (if b then ustr ''true'' else ustr ''false'')"
| "ToString nts (JNum n) = Some (nts n)"
| "ToString nts (JStr s) = Some s"
| "ToString nts (JArr xs) = ArrayJoin nts xs"
| "ToString nts (JObj kvs) =
     (if ustr ''toString'' \<in> fst ` set kvs then None else Some (ustr ''[object Object]''))"
| "ArrayJoin nts [] = Some []"
| "ArrayJoin nts (x # xs) =
     (case (if x = JNull then Some [] else ToString nts x) of
        None \<Rightarrow> None
      | Some s \<Rightarrow>
          if xs = [] then Some s
          else (case ArrayJoin nts xs of
                  None \<Rightarrow> None
                | Some r \<Rightarrow> Some (s @ ustr '','' @ r)))"

text \<open>
  The value that the text written by \<open>JSON.stringify\<close> denotes, for a value that
  came from \<open>JSON.parse\<close>: the same tree, a number that is not finite replaced by
  \<open>null\<close>. (A parsed value has no \<open>undefined\<close>, no function and no \<open>toJSON\<close>
  method.)
\<close>

fun stringify_value :: "('n \<Rightarrow> bool) \<Rightarrow> 'n json \<Rightarrow> 'n json" where
  "stringify_value fin (JNum n) = (if fin n then JNum n else JNull)"
| "stringify_value fin (JArr xs) = JArr (map (stringify_value fin) xs)"
| "stringify_value fin (JObj kvs) = JObj (map (\<lambda>kv. (fst kv, stringify_value fin (snd kv))) kvs)"
| "stringify_value fin v = v"

section \<open>Snapshot normalisation\<close>

text \<open>
  \<open>s_cleanStr\<close> and \<open>s_normalizeSnapshot\<close> are the same text in
  \<open>src/app/api/review/route.ts\<close> (lines 17 to 43) and in \<open>src/unnamed/part_000\<close>
  (lines 41 to 68), and \<open>cleanStr\<close> and \<open>normalizeSnapshot\<close> of
  \<open>src/app/Review/page.tsx\<close> differ from them in the names of three local constants
  only. The argument is an \<open>unknown\<close>: \<open>None\<close> is \<open>undefined\<close>. \<open>nts\<close> is
  \<open>Number::toString\<close>.
\<close>

definition s_cleanStr :: "('n \<Rightarrow> jsstring) \<Rightarrow> 'n json option \<Rightarrow> jsstring" where
  "s_cleanStr nts input =
     (case input of
        Some (JStr s) \<Rightarrow> s
      | None \<Rightarrow> []
      | Some JNull \<Rightarrow> []
      | Some v \<Rightarrow> (case ToString nts v of Some s \<Rightarrow> s | None \<Rightarrow> []))"

record Snapshot =
  parties :: jsstring
  dates :: jsstring
  "term" :: jsstring
  rate :: jsstring
  deliverables :: jsstring
  usage :: jsstring
  brandBrief :: "jsstring option"
  additionalReqs :: "jsstring option"
  billing :: "jsstring option"

text \<open>\<open>x || undefined\<close> for a string \<open>x\<close>: the empty string is falsy.\<close>

definition orUndefined :: "jsstring \<Rightarrow> jsstring option" where
  "orUndefined x = (if x = [] then None else Some x)"

definition s_normalizeSnapshot :: "('n \<Rightarrow> jsstring) \<Rightarrow> 'n json option \<Rightarrow> Snapshot" where
  "s_normalizeSnapshot nts s =
     (let parties = s_cleanStr nts (optGet s (ustr ''parties''));
          dates = s_cleanStr nts (optGet s (ustr ''dates''));
          term = s_cleanStr nts (optGet s (ustr ''term''));
          rate = s_cleanStr nts (optGet s (ustr ''rate''));
          deliverables = s_cleanStr nts (optGet s (ustr ''deliverables''));
          usage = s_cleanStr nts (optGet s (ustr ''usage''));
          brandBrief = s_cleanStr nts (optGet s (ustr ''brandBrief''));
          additionalReqs = s_cleanStr nts (optGet s (ustr ''additionalReqs''));
          billing = s_cleanStr nts (optGet s (ustr ''billing''))
      in \<lparr> parties = parties,
           dates = dates,
           term = term,
           rate = rate,
           deliverables = deliverables,
           usage = usage,
           brandBrief = orUndefined brandBrief,
           additionalReqs = orUndefined additionalReqs,
           billing = orUndefined billing \<rparr>)"

section \<open>The request and its collaborators\<close>

text \<open>
  The handler awaits external calls one after the other; each either throws or
  returns. The model takes their outcomes for the request at hand as the
  environment and records, in the order they are made, the calls to the two text
  extractors and to the chat-completion API.
\<close>

datatype 'a outcome = Throws | Returns 'a

text \<open>
  \<open>form.get("file")\<close> is \<open>null\<close>, a string (a plain form field named \<open>file\<close>) or
  a \<open>File\<close>. A \<open>File\<close> has a name, a MIME type and a size in bytes; a string has
  none of the three properties and no \<open>arrayBuffer\<close> method.
\<close>

record File =
  file_name :: jsstring
  file_type :: jsstring
  file_size :: nat
  file_arrayBuffer :: "unit outcome"

datatype form_entry = StringEntry jsstring | FileEntry File

text \<open>
  The message contents of the choices of a completion (\<open>null\<close> is \<open>None\<close>);
  \<open>choices[0]?.message?.content\<close> reads the first.
\<close>

datatype completion = Completion "jsstring option list"

record chat_request =
  model :: jsstring
  temperature :: string
  messages :: "(jsstring \<times> jsstring) list"
  response_format :: jsstring

datatype call = PdfParse | Mammoth | ChatCompletion chat_request

record 'n env =
  formData_file :: "form_entry option outcome"
  pdfParse :: "jsstring option outcome"
  mammoth_extractRawText :: "jsstring option outcome"
  OpenAI_new :: "unit outcome"
  chat_completions_create :: "completion outcome"
  JSON_parse :: "jsstring \<Rightarrow> 'n json option"
  numToString :: "'n \<Rightarrow> jsstring"
  isFinite :: "'n \<Rightarrow> bool"

text \<open>
  \<open>formData_file\<close> is \<open>(await req.formData()).get("file")\<close>;
  \<open>pdfParse\<close> is the \<open>text\<close> property of what \<open>pdfParse(buffer)\<close> resolves to and
  \<open>mammoth_extractRawText\<close> the \<open>value\<close> property of the result of
  \<open>mammoth.extractRawText\<close> (\<open>None\<close> when the property is missing);
  \<open>JSON_parse\<close> gives \<open>None\<close> where \<open>JSON.parse\<close> throws.
\<close>

definition extractTextFromPDF :: "'n env \<Rightarrow> jsstring outcome" where
  "extractTextFromPDF env =
     (case pdfParse env of
        Throws \<Rightarrow> Throws
      | Returns text \<Rightarrow> Returns (case text of None \<Rightarrow> [] | Some t \<Rightarrow> t))"

definition extractTextFromDOCX :: "'n env \<Rightarrow> jsstring outcome" where
  "extractTextFromDOCX env =
     (case mammoth_extractRawText env of
        Throws \<Rightarrow> Throws
      | Returns v \<Rightarrow> Returns (case v of None \<Rightarrow> [] | Some t \<Rightarrow> t))"

definition looksLikePDF :: "jsstring option \<Rightarrow> jsstring option \<Rightarrow> bool" where
  "looksLikePDF filename mime \<longleftrightarrow>
     (case mime of None \<Rightarrow> False | Some m \<Rightarrow> includesStr m (ustr ''pdf'')) \<or>
     (case filename of None \<Rightarrow> False | Some f \<Rightarrow> endsWith (toLowerCase f) (ustr ''.pdf''))"

definition looksLikeDOCX :: "jsstring option \<Rightarrow> jsstring option \<Rightarrow> bool" where
  "looksLikeDOCX filename mime \<longleftrightarrow>
     (let n = (case filename of None \<Rightarrow> [] | Some f \<Rightarrow> toLowerCase f)
      in (case mime of None \<Rightarrow> False | Some m \<Rightarrow> includesStr m (ustr ''word'')) \<or>
         endsWith n (ustr ''.docx'') \<or> endsWith n (ustr ''.doc''))"

text \<open>
  The three ways in which the handler obtains \<open>text\<close> (route.ts lines 82 to 92,
  part_000 lines 118 to 128, the same statements): by the PDF extractor, by the
  DOCX extractor, or by trying both and ignoring what they throw. The first two
  end the request when the extractor throws.
\<close>

datatype extraction = Extracted jsstring | PdfFailed | WordFailed

definition extractText ::
  "'n env \<Rightarrow> jsstring option \<Rightarrow> jsstring option \<Rightarrow> extraction \<times> call list" where
  "extractText env fname mime =
     (if looksLikePDF fname mime then
        (case extractTextFromPDF env of
           Throws \<Rightarrow> (PdfFailed, [PdfParse])
         | Returns t \<Rightarrow> (Extracted t, [PdfParse]))
      else if looksLikeDOCX fname mime \<or>
              regex_test dot_doc (case fname of None \<Rightarrow> [] | Some f \<Rightarrow> f) then
        (case extractTextFromDOCX env of
           Throws \<Rightarrow> (WordFailed, [Mammoth])
         | Returns t \<Rightarrow> (Extracted t, [Mammoth]))
      else
        (let text = (case extractTextFromPDF env of Throws \<Rightarrow> [] | Returns t \<Rightarrow> t)
         in if text = [] then
              (case extractTextFromDOCX env of
                 Throws \<Rightarrow> (Extracted text, [PdfParse, Mammoth])
               | Returns t \<Rightarrow> (Extracted t, [PdfParse, Mammoth]))
            else (Extracted text, [PdfParse])))"

section \<open>The reply\<close>

text \<open>
  \<open>Array.prototype.filter\<close> with a callback that may throw: the first throw ends
  the filter.
\<close>

fun Array_filter :: "('a \<Rightarrow> bool option) \<Rightarrow> 'a list \<Rightarrow> 'a list option" where
  "Array_filter f [] = Some []"
| "Array_filter f (x # xs) =
     (case f x of
        None \<Rightarrow> None
      | Some keep \<Rightarrow>
          (case Array_filter f xs of
             None \<Rightarrow> None
           | Some ys \<Rightarrow> Some (if keep then x # ys else ys)))"

text \<open>
  \<open>/late fee/i.test(c)\<close>: the argument is converted with \<open>ToString\<close> first, which
  can throw.
\<close>

definition late_fee_test :: "('n \<Rightarrow> jsstring) \<Rightarrow> 'n json \<Rightarrow> bool option" where
  "late_fee_test nts c = map_option (regex_test late_fee) (ToString nts c)"

record 'n ReviewOut =
  snapshot :: Snapshot
  risks :: "'n json list"
  counters :: "'n json list"
  rawText :: jsstring

text \<open>
  From the completion to the object \<open>out\<close> (route.ts lines 119 to 127, part_000
  lines 159 to 168, the same statements): \<open>reply_content\<close> is
  \<open>completion.choices[0]?.message?.content ?? "{}"\<close>, \<open>reply_data\<close> the parsed
  content or the empty object, \<open>array_or_empty v\<close> is
  \<open>Array.isArray(v) ? v : []\<close>. \<open>review_out\<close> is \<open>None\<close> when the filter callback
  throws.
\<close>

definition reply_content :: "completion \<Rightarrow> jsstring" where
  "reply_content completion =
     (case completion of
        Completion [] \<Rightarrow> ustr ''{}''
      | Completion (None # _) \<Rightarrow> ustr ''{}''
      | Completion (Some c # _) \<Rightarrow> c)"

definition reply_data :: "'n env \<Rightarrow> jsstring \<Rightarrow> 'n json" where
  "reply_data env content = (case JSON_parse env content of None \<Rightarrow> JObj [] | Some d \<Rightarrow> d)"

definition array_or_empty :: "'n json option \<Rightarrow> 'n json list" where
  "array_or_empty v = (case v of Some (JArr xs) \<Rightarrow> xs | _ \<Rightarrow> [])"

definition review_out :: "'n env \<Rightarrow> completion \<Rightarrow> jsstring \<Rightarrow> 'n ReviewOut option" where
  "review_out env completion trimmed =
     (let content = reply_content completion;
          data = reply_data env content;
          snap = (case optGet (Some data) (ustr ''snapshot'') of
                    None \<Rightarrow> JObj []
                  | Some JNull \<Rightarrow> JObj []
                  | Some v \<Rightarrow> v)
      in case Array_filter (\<lambda>c. map_option Not (late_fee_test (numToString env) c))
                (array_or_empty (optGet (Some data) (ustr ''counters''))) of
           None \<Rightarrow> None
         | Some kept \<Rightarrow>
             Some \<lparr> snapshot = s_normalizeSnapshot (numToString env) (Some snap),
                    risks = array_or_empty (optGet (Some data) (ustr ''risks'')),
                    counters = kept,
                    rawText = trimmed \<rparr>)"

text \<open>
  \<open>JSON.stringify(out)\<close>, as the value its text denotes: a property whose value is
  \<open>undefined\<close> is left out.
\<close>

definition optional_property :: "string \<Rightarrow> jsstring option \<Rightarrow> (jsstring \<times> 'n json) list" where
  "optional_property k v = (case v of None \<Rightarrow> [] | Some s \<Rightarrow> [(ustr k, JStr s)])"

definition stringify_snapshot :: "Snapshot \<Rightarrow> 'n json" where
  "stringify_snapshot s =
     JObj ([(ustr ''parties'', JStr (parties s)),
            (ustr ''dates'', JStr (dates s)),
            (ustr ''term'', JStr (term s)),
            (ustr ''rate'', JStr (rate s)),
            (ustr ''deliverables'', JStr (deliverables s)),
            (ustr ''usage'', JStr (usage s))]
           @ optional_property ''brandBrief'' (brandBrief s)
           @ optional_property ''additionalReqs'' (additionalReqs s)
           @ optional_property ''billing'' (billing s))"

definition stringify_out :: "('n \<Rightarrow> bool) \<Rightarrow> 'n ReviewOut \<Rightarrow> 'n json" where
  "stringify_out fin out =
     JObj [(ustr ''snapshot'', stringify_snapshot (snapshot out)),
           (ustr ''risks'', JArr (map (stringify_value fin) (risks out))),
           (ustr ''counters'', JArr (map (stringify_value fin) (counters out))),
           (ustr ''rawText'', JStr (rawText out))]"

section \<open>Responses\<close>

record 'n response =
  status :: nat
  headers :: "(string \<times> string) list"
  body :: "'n json"

text \<open>The body \<open>{ error: msg }\<close> of every failure.\<close>

definition error_body :: "string \<Rightarrow> 'n json" where
  "error_body msg = JObj [(ustr ''error'', JStr (ustr msg))]"

text \<open>
  \<open>NextResponse.json(body, { status })\<close> writes \<open>JSON.stringify(body)\<close> and sets the
  content type.
\<close>

definition NextResponse_json :: "'n json \<Rightarrow> nat \<Rightarrow> 'n response" where
  "NextResponse_json b st =
     \<lparr> status = st, headers = [(''content-type'', ''application/json'')], body = b \<rparr>"

definition CORS_HEADERS :: "(string \<times> string) list" where
  "CORS_HEADERS =
     [(''Access-Control-Allow-Origin'', ''*''),
      (''Access-Control-Allow-Methods'', ''POST, OPTIONS''),
      (''Access-Control-Allow-Headers'', ''Content-Type'')]"

definition corsJson :: "'n json \<Rightarrow> nat \<Rightarrow> 'n response" where
  "corsJson b st =
     \<lparr> status = st,
       headers = CORS_HEADERS @ [(''Content-Type'', ''application/json'')],
       body = b \<rparr>"

section \<open>The two handlers\<close>

definition MAX_BYTES :: nat where
  "MAX_BYTES = 15 * 1024 * 1024"

definition TEXT_LIMIT :: nat where
  "TEXT_LIMIT = 50000"

text \<open>The properties \<open>name\<close>, \<open>type\<close> and \<open>size\<close> of the form entry.\<close>

definition entry_name :: "form_entry \<Rightarrow> jsstring option" where
  "entry_name e = (case e of StringEntry _ \<Rightarrow> None | FileEntry f \<Rightarrow> Some (file_name f))"

definition entry_type :: "form_entry \<Rightarrow> jsstring option" where
  "entry_type e = (case e of StringEntry _ \<Rightarrow> None | FileEntry f \<Rightarrow> Some (file_type f))"

definition entry_size :: "form_entry \<Rightarrow> nat option" where
  "entry_size e = (case e of StringEntry _ \<Rightarrow> None | FileEntry f \<Rightarrow> Some (file_size f))"

definition entry_arrayBuffer :: "form_entry \<Rightarrow> unit outcome" where
  "entry_arrayBuffer e = (case e of StringEntry _ \<Rightarrow> Throws | FileEntry f \<Rightarrow> file_arrayBuffer f)"

text \<open>
  \<open>!file\<close> for an entry that is not \<open>null\<close>: the empty string is falsy, every
  other entry is truthy.
\<close>

definition falsy_entry :: "form_entry \<Rightarrow> bool" where
  "falsy_entry e \<longleftrightarrow> (case e of StringEntry s \<Rightarrow> s = [] | FileEntry _ \<Rightarrow> False)"

definition user_message :: "jsstring \<Rightarrow> jsstring" where
  "user_message trimmed = ustr ''Contract text:\<newline>\<newline>'' @ trimmed"

definition chat_request_of :: "jsstring \<Rightarrow> jsstring \<Rightarrow> chat_request" where
  "chat_request_of system user =
     \<lparr> model = ustr ''gpt-4o-mini'',
       temperature = ''0.2'',
       messages = [(ustr ''system'', system), (ustr ''user'', user)],
       response_format = ustr ''json_object'' \<rparr>"

text \<open>The system prompt of \<open>src/app/api/review/route.ts\<close> (lines 101 to 107).\<close>

definition system_route :: jsstring where
  \<open>system_route =
     ustr ''You are a contracts analyst for creator/brand deals. Return STRICT JSON only. Fields:\<newline>'' @
     ustr ''{\<newline>'' @
     ustr ''  "snapshot": {"parties":string,"dates":string,"term":string,"rate":string,"deliverables":string,"usage":string,"brandBrief":string|null,"additionalReqs":string|null,"billing":string|null},\<newline>'' @
     ustr ''  "risks": Array<{"label":string,"level":"Low"|"Med"|"High","note"?:string}>,\<newline>'' @
     ustr ''  "counters": string[]\<newline>'' @
     ustr ''}\<newline>'' @
     ustr ''Do NOT include late fees in counters.''\<close>

text \<open>
  The system prompt of \<open>src/unnamed/part_000\<close> (lines 139 to 145): the same lines,
  all but the first indented by six more spaces.
\<close>

definition system_part_000 :: jsstring where
  \<open>system_part_000 =
     ustr ''You are a contracts analyst for creator/brand deals. Return STRICT JSON only. Fields:\<newline>'' @
     ustr ''      {\<newline>'' @
     ustr ''        "snapshot": {"parties":string,"dates":string,"term":string,"rate":string,"deliverables":string,"usage":string,"brandBrief":string|null,"additionalReqs":string|null,"billing":string|null},\<newline>'' @
     ustr ''        "risks": Array<{"label":string,"level":"Low"|"Med"|"High","note"?:string}>,\<newline>'' @
     ustr ''        "counters": string[]\<newline>'' @
     ustr ''      }\<newline>'' @
     ustr ''      Do NOT include late fees in counters.''\<close>

text \<open>
  \<open>POST\<close> of \<open>src/app/api/review/route.ts\<close> (lines 61 to 137). The result is the
  response and the external calls made. Everything thrown inside the \<open>try\<close> block
  ends in the response 500 of the \<open>catch\<close> clause (which also logs the error on
  the server console; the log is not modelled).
\<close>

definition POST :: "'n env \<Rightarrow> 'n response \<times> call list" where
  \<open>POST env =
     (case formData_file env of
        Throws \<Rightarrow> (NextResponse_json (error_body ''Unexpected error'') 500, [])
      | Returns None \<Rightarrow> (NextResponse_json (error_body ''No file provided'') 400, [])
      | Returns (Some file) \<Rightarrow>
          if falsy_entry file then (NextResponse_json (error_body ''No file provided'') 400, [])
          else
            (let fname = entry_name file;
                 mime = entry_type file;
                 size = entry_size file
             in if (case size of None \<Rightarrow> False | Some n \<Rightarrow> n > MAX_BYTES) then
                  (NextResponse_json (error_body ''File too large (max 15MB).'') 413, [])
                else if (case fname of None \<Rightarrow> False
                         | Some n \<Rightarrow> n \<noteq> [] \<and> \<not> regex_test allowed n) then
                  (NextResponse_json
                     (error_body ''Unsupported file type. Please upload a PDF or Word document.'')
                     415, [])
                else
                  (case entry_arrayBuffer file of
                     Throws \<Rightarrow> (NextResponse_json (error_body ''Unexpected error'') 500, [])
                   | Returns _ \<Rightarrow>
                       (case extractText env fname mime of
                          (PdfFailed, calls) \<Rightarrow>
                            (NextResponse_json
                               (error_body ''Unable to parse PDF. If it's password-protected, export an unlocked copy and re-upload.'')
                               422, calls)
                        | (WordFailed, calls) \<Rightarrow>
                            (NextResponse_json
                               (error_body ''Unable to read Word file. Try saving as DOCX or PDF and re-upload.'')
                               422, calls)
                        | (Extracted text, calls) \<Rightarrow>
                            if text = [] \<or> length (trim text) < 20 then
                              (NextResponse_json
                                 (error_body ''We couldn't extract readable text. Please export to PDF or DOCX and re-upload.'')
                                 422, calls)
                            else
                              (let trimmed = take TEXT_LIMIT text
                               in case OpenAI_new env of
                                    Throws \<Rightarrow>
                                      (NextResponse_json (error_body ''Unexpected error'') 500, calls)
                                  | Returns _ \<Rightarrow>
                                      (let request = chat_request_of system_route (user_message trimmed);
                                           calls' = calls @ [ChatCompletion request]
                                       in case chat_completions_create env of
                                            Throws \<Rightarrow>
                                              (NextResponse_json (error_body ''Unexpected error'') 500, calls')
                                          | Returns completion \<Rightarrow>
                                              (case review_out env completion trimmed of
                                                 None \<Rightarrow>
                                                   (NextResponse_json (error_body ''Unexpected error'') 500,
                                                    calls')
                                               | Some out \<Rightarrow>
                                                   (\<lparr> status = 200,
                                                      headers =
                                                        [(''Content-Type'', ''application/json''),
                                                         (''Cache-Control'', ''no-store, max-age=0'')],
                                                      body = stringify_out (isFinite env) out \<rparr>,
                                                    calls'))))))))\<close>

text \<open>
  \<open>POST\<close> of \<open>src/unnamed/part_000\<close> (lines 92 to 176): every response is built by
  \<open>corsJson\<close>.
\<close>

definition POST_part_000 :: "'n env \<Rightarrow> 'n response \<times> call list" where
  \<open>POST_part_000 env =
     (case formData_file env of
        Throws \<Rightarrow> (corsJson (error_body ''Unexpected error'') 500, [])
      | Returns None \<Rightarrow> (corsJson (error_body ''No file provided'') 400, [])
      | Returns (Some file) \<Rightarrow>
          if falsy_entry file then (corsJson (error_body ''No file provided'') 400, [])
          else
            (let fname = entry_name file;
                 mime = entry_type file;
                 size = entry_size file
             in if (case size of None \<Rightarrow> False | Some n \<Rightarrow> n > MAX_BYTES) then
                  (corsJson (error_body ''File too large (max 15MB).'') 413, [])
                else if (case fname of None \<Rightarrow> False
                         | Some n \<Rightarrow> n \<noteq> [] \<and> \<not> regex_test allowed n) then
                  (corsJson
                     (error_body ''Unsupported file type. Please upload a PDF or Word document.'')
                     415, [])
                else
                  (case entry_arrayBuffer file of
                     Throws \<Rightarrow> (corsJson (error_body ''Unexpected error'') 500, [])
                   | Returns _ \<Rightarrow>
                       (case extractText env fname mime of
                          (PdfFailed, calls) \<Rightarrow>
                            (corsJson
                               (error_body ''Unable to parse PDF. If it's password-protected, export an unlocked copy and re-upload.'')
                               422, calls)
                        | (WordFailed, calls) \<Rightarrow>
                            (corsJson
                               (error_body ''Unable to read Word file. Try saving as DOCX or PDF and re-upload.'')
                               422, calls)
                        | (Extracted text, calls) \<Rightarrow>
                            if text = [] \<or> length (trim text) < 20 then
                              (corsJson
                                 (error_body ''We couldn't extract readable text. Please export to PDF or DOCX and re-upload.'')
                                 422, calls)
                            else
                              (let trimmed = take TEXT_LIMIT text
                               in case OpenAI_new env of
                                    Throws \<Rightarrow> (corsJson (error_body ''Unexpected error'') 500, calls)
                                  | Returns _ \<Rightarrow>
                                      (let request =
                                             chat_request_of system_part_000 (user_message trimmed);
                                           calls' = calls @ [ChatCompletion request]
                                       in case chat_completions_create env of
                                            Throws \<Rightarrow>
                                              (corsJson (error_body ''Unexpected error'') 500, calls')
                                          | Returns completion \<Rightarrow>
                                              (case review_out env completion trimmed of
                                                 None \<Rightarrow>
                                                   (corsJson (error_body ''Unexpected error'') 500, calls')
                                               | Some out \<Rightarrow>
                                                   (corsJson (stringify_out (isFinite env) out) 200,
                                                    calls'))))))))\<close>

section \<open>A common form of the two handlers\<close>

text \<open>
  The two handlers run the same steps and differ in how a response is built and in
  the system prompt. \<open>run\<close> is the sequence of steps with the response left
  abstract: a failure with its status and message, or the object \<open>out\<close>. It is
  proved below to be what both handlers compute, and serves the proofs only.
\<close>

datatype 'n result = Failure nat string | Success "'n ReviewOut"

definition run_reply ::
  "jsstring \<Rightarrow> 'n env \<Rightarrow> jsstring \<Rightarrow> call list \<Rightarrow> 'n result \<times> call list" where
  "run_reply sys env tx calls =
     (case OpenAI_new env of
        Throws \<Rightarrow> (Failure 500 ''Unexpected error'', calls)
      | Returns _ \<Rightarrow>
          (case chat_completions_create env of
             Throws \<Rightarrow>
               (Failure 500 ''Unexpected error'',
                calls @ [ChatCompletion (chat_request_of sys (user_message (take TEXT_LIMIT tx)))])
           | Returns completion \<Rightarrow>
               (case review_out env completion (take TEXT_LIMIT tx) of
                  None \<Rightarrow>
                    (Failure 500 ''Unexpected error'',
                     calls @ [ChatCompletion (chat_request_of sys (user_message (take TEXT_LIMIT tx)))])
                | Some out \<Rightarrow>
                    (Success out,
                     calls @ [ChatCompletion (chat_request_of sys (user_message (take TEXT_LIMIT tx)))]))))"

definition run_text ::
  "jsstring \<Rightarrow> 'n env \<Rightarrow> extraction \<times> call list \<Rightarrow> 'n result \<times> call list" where
  \<open>run_text sys env x =
     (case x of
        (PdfFailed, calls) \<Rightarrow>
          (Failure 422 ''Unable to parse PDF. If it's password-protected, export an unlocked copy and re-upload.'', calls)
      | (WordFailed, calls) \<Rightarrow>
          (Failure 422 ''Unable to read Word file. Try saving as DOCX or PDF and re-upload.'', calls)
      | (Extracted tx, calls) \<Rightarrow>
          if tx = [] \<or> length (trim tx) < 20 then
            (Failure 422 ''We couldn't extract readable text. Please export to PDF or DOCX and re-upload.'', calls)
          else run_reply sys env tx calls)\<close>

definition run :: "jsstring \<Rightarrow> 'n env \<Rightarrow> 'n result \<times> call list" where
  "run sys env =
     (case formData_file env of
        Throws \<Rightarrow> (Failure 500 ''Unexpected error'', [])
      | Returns None \<Rightarrow> (Failure 400 ''No file provided'', [])
      | Returns (Some e) \<Rightarrow>
          if falsy_entry e then (Failure 400 ''No file provided'', [])
          else if (case entry_size e of None \<Rightarrow> False | Some n \<Rightarrow> n > MAX_BYTES) then
            (Failure 413 ''File too large (max 15MB).'', [])
          else if (case entry_name e of None \<Rightarrow> False
                   | Some n \<Rightarrow> n \<noteq> [] \<and> \<not> regex_test allowed n) then
            (Failure 415 ''Unsupported file type. Please upload a PDF or Word document.'', [])
          else
            (case entry_arrayBuffer e of
               Throws \<Rightarrow> (Failure 500 ''Unexpected error'', [])
             | Returns _ \<Rightarrow>
                 run_text sys env (extractText env (entry_name e) (entry_type e))))"

fun respond_route :: "'n env \<Rightarrow> 'n result \<Rightarrow> 'n response" where
  "respond_route env (Failure st msg) = NextResponse_json (error_body msg) st"
| "respond_route env (Success out) =
     \<lparr> status = 200,
       headers = [(''Content-Type'', ''application/json''),
                  (''Cache-Control'', ''no-store, max-age=0'')],
       body = stringify_out (isFinite env) out \<rparr>"

fun respond_part_000 :: "'n env \<Rightarrow> 'n result \<Rightarrow> 'n response" where
  "respond_part_000 env (Failure st msg) = corsJson (error_body msg) st"
| "respond_part_000 env (Success out) = corsJson (stringify_out (isFinite env) out) 200"

text \<open>
  The upload passes the checks of lines 63 to 80 of route.ts: a \<open>File\<close> of at most
  15MB whose name is empty or matches \<open>allowed\<close>, and whose bytes can be read.
  Then, and only then, the handler goes on to extract text.
\<close>

definition upload_accepted :: "'n env \<Rightarrow> File \<Rightarrow> bool" where
  "upload_accepted env f \<longleftrightarrow>
     formData_file env = Returns (Some (FileEntry f)) \<and>
     \<not> file_size f > MAX_BYTES \<and>
     (file_name f = [] \<or> regex_test allowed (file_name f)) \<and>
     file_arrayBuffer f = Returns ()"

section \<open>The words of the specification\<close>

text \<open>
  The file name has one of the extensions \<open>pdf\<close>, \<open>doc\<close>, \<open>docx\<close>, \<open>rtf\<close>, in any
  letter case: the specification's reading of the pattern \<open>allowed\<close>.
\<close>

definition has_allowed_extension :: "jsstring \<Rightarrow> bool" where
  "has_allowed_extension n \<longleftrightarrow>
     list_ex (\<lambda>ext. endsWith (toLowerCase n) (ustr ''.'' @ ustr ext))
       [''pdf'', ''doc'', ''docx'', ''rtf'']"

text \<open>The characters of the patterns: a small letter, the dot, the space.\<close>

definition plain_cu :: "jschar \<Rightarrow> bool" where
  "plain_cu a \<longleftrightarrow> (0x61 \<le> a \<and> a \<le> 0x7A) \<or> a = 0x2E \<or> a = 0x20"

definition mandatory_fields :: "string list" where
  "mandatory_fields = [''parties'', ''dates'', ''term'', ''rate'', ''deliverables'', ''usage'']"

definition optional_fields :: "string list" where
  "optional_fields = [''brandBrief'', ''additionalReqs'', ''billing'']"

text \<open>Reading a property path, as in \<open>body.snapshot.parties\<close>; \<open>None\<close> is \<open>undefined\<close>.\<close>

fun lookup_path :: "'n json \<Rightarrow> string list \<Rightarrow> 'n json option" where
  "lookup_path v [] = Some v"
| "lookup_path v (k # ks) =
     (case Get v (ustr k) of None \<Rightarrow> None | Some w \<Rightarrow> lookup_path w ks)"

fun is_string :: "'n json \<Rightarrow> bool" where
  "is_string (JStr _) = True"
| "is_string _ = False"

text \<open>
  An element of \<open>risks\<close> as the specification describes it: a string \<open>label\<close>, a
  \<open>level\<close> that is \<open>Low\<close>, \<open>Med\<close> or \<open>High\<close>, and a \<open>note\<close> that is a string when
  present.
\<close>

definition risk_ok :: "'n json \<Rightarrow> bool" where
  "risk_ok r \<longleftrightarrow>
     (case Get r (ustr ''label'') of Some (JStr _) \<Rightarrow> True | _ \<Rightarrow> False) \<and>
     (case Get r (ustr ''level'') of
        Some (JStr l) \<Rightarrow> l = ustr ''Low'' \<or> l = ustr ''Med'' \<or> l = ustr ''High''
      | _ \<Rightarrow> False) \<and>
     (case Get r (ustr ''note'') of None \<Rightarrow> True | Some (JStr _) \<Rightarrow> True | _ \<Rightarrow> False)"

text \<open>
  A reply that matches the schema of the system prompt: the nine snapshot fields
  are strings (the three optional ones strings or \<open>null\<close>), every risk is an object
  of string properties that satisfies \<open>risk_ok\<close>, every counter is a string.
\<close>

definition snapshot_schema :: "'n json \<Rightarrow> bool" where
  "snapshot_schema v \<longleftrightarrow>
     list_all (\<lambda>k. case Get v (ustr k) of Some (JStr _) \<Rightarrow> True | _ \<Rightarrow> False)
       mandatory_fields \<and>
     list_all (\<lambda>k. case Get v (ustr k) of Some (JStr _) \<Rightarrow> True | Some JNull \<Rightarrow> True
                    | _ \<Rightarrow> False)
       optional_fields"

definition risk_schema :: "'n json \<Rightarrow> bool" where
  "risk_schema r \<longleftrightarrow>
     risk_ok r \<and> (case r of JObj kvs \<Rightarrow> list_all (\<lambda>kv. is_string (snd kv)) kvs | _ \<Rightarrow> False)"

definition reply_schema :: "'n json \<Rightarrow> bool" where
  "reply_schema d \<longleftrightarrow>
     (case Get d (ustr ''snapshot'') of Some v \<Rightarrow> snapshot_schema v | None \<Rightarrow> False) \<and>
     (case Get d (ustr ''risks'') of Some (JArr rs) \<Rightarrow> list_all risk_schema rs | _ \<Rightarrow> False) \<and>
     (case Get d (ustr ''counters'') of Some (JArr cs) \<Rightarrow> list_all is_string cs | _ \<Rightarrow> False)"

text \<open>
  What the reply's optional snapshot field becomes in the response: itself when it
  is a string that is not empty, otherwise nothing.
\<close>

definition nonempty_string_only :: "'n json option \<Rightarrow> 'n json option" where
  "nonempty_string_only v =
     (case v of Some (JStr s) \<Rightarrow> if s = [] then None else Some (JStr s) | _ \<Rightarrow> None)"

text \<open>A counter that is a string and does not match \<open>/late fee/i\<close>.\<close>

fun no_late_fee :: "'n json \<Rightarrow> bool" where
  "no_late_fee (JStr s) = (\<not> regex_test late_fee s)"
| "no_late_fee _ = True"

section \<open>Example requests\<close>

definition example_file :: File where
  "example_file =
     \<lparr> file_name = ustr ''contract.pdf'', file_type = ustr ''application/pdf'',
       file_size = 2048, file_arrayBuffer = Returns () \<rparr>"

definition example_text :: jsstring where
  "example_text = ustr ''This Agreement is made between Acme and Jane.''"

text \<open>
  A request with the file \<open>f\<close>, from which the PDF extractor reads \<open>extracted\<close>,
  and a completion whose content \<open>content\<close> parses to \<open>parsed\<close>. No number occurs
  in the examples; the number type has one element.
\<close>

definition example_env ::
  "File \<Rightarrow> jsstring \<Rightarrow> jsstring \<Rightarrow> unit json option \<Rightarrow> unit env" where
  "example_env f extracted content parsed =
     \<lparr> formData_file = Returns (Some (FileEntry f)),
       pdfParse = Returns (Some extracted),
       mammoth_extractRawText = Throws,
       OpenAI_new = Returns (),
       chat_completions_create = Returns (Completion [Some content]),
       JSON_parse = (\<lambda>s. if s = content then parsed else None),
       numToString = (\<lambda>n. ustr ''0''),
       isFinite = (\<lambda>n. True) \<rparr>"

definition example_reply :: jsstring where
  \<open>example_reply = ustr ''{"snapshot":{"parties":"Acme and Jane","dates":"2024","term":"1 year","rate":"500","deliverables":"3 posts","usage":"organic","brandBrief":null,"additionalReqs":"","billing":"Net 30"},"risks":[{"label":"Exclusivity","level":"High","note":"1 year"}],"counters":["Shorten term","Add a Late Fee of 5%"]}''\<close>

definition example_data :: "unit json" where
  "example_data =
     JObj [(ustr ''snapshot'',
            JObj [(ustr ''parties'', JStr (ustr ''Acme and Jane'')),
                  (ustr ''dates'', JStr (ustr ''2024'')),
                  (ustr ''term'', JStr (ustr ''1 year'')),
                  (ustr ''rate'', JStr (ustr ''500'')),
                  (ustr ''deliverables'', JStr (ustr ''3 posts'')),
                  (ustr ''usage'', JStr (ustr ''organic'')),
                  (ustr ''brandBrief'', JNull),
                  (ustr ''additionalReqs'', JStr []),
                  (ustr ''billing'', JStr (ustr ''Net 30''))]),
           (ustr ''risks'',
            JArr [JObj [(ustr ''label'', JStr (ustr ''Exclusivity'')),
                        (ustr ''level'', JStr (ustr ''High'')),
                        (ustr ''note'', JStr (ustr ''1 year''))]]),
           (ustr ''counters'',
            JArr [JStr (ustr ''Shorten term''), JStr (ustr ''Add a Late Fee of 5%'')])]"

text \<open>A reply that follows the schema, with a counter that mentions a late fee.\<close>

definition example_env_full :: "unit env" where
  "example_env_full = example_env example_file example_text example_reply (Some example_data)"

text \<open>The reply \<open>{}\<close>.\<close>

definition example_env_empty :: "unit env" where
  "example_env_empty = example_env example_file example_text (ustr ''{}'') (Some (JObj []))"

text \<open>A reply that is not JSON.\<close>

definition example_env_malformed :: "unit env" where
  "example_env_malformed =
     example_env example_file example_text (ustr ''Sorry, I cannot help.'') None"

text \<open>A reply whose \<open>risks\<close> holds a string instead of an object.\<close>

definition example_env_bad_risk :: "unit env" where
  \<open>example_env_bad_risk =
     example_env example_file example_text (ustr ''{"risks":["high"]}'')
       (Some (JObj [(ustr ''risks'', JArr [JStr (ustr ''high'')])]))\<close>

text \<open>A text file of 16MB, and a small one.\<close>

definition example_big_txt :: File where
  "example_big_txt =
     \<lparr> file_name = ustr ''notes.txt'', file_type = ustr ''text/plain'',
       file_size = 16 * 1024 * 1024, file_arrayBuffer = Returns () \<rparr>"

definition example_small_txt :: File where
  "example_small_txt =
     \<lparr> file_name = ustr ''notes.txt'', file_type = ustr ''text/plain'',
       file_size = 1024, file_arrayBuffer = Returns () \<rparr>"

definition example_env_big_txt :: "unit env" where
  "example_env_big_txt = example_env example_big_txt example_text (ustr ''{}'') (Some (JObj []))"

definition example_env_small_txt :: "unit env" where
  "example_env_small_txt =
     example_env example_small_txt example_text (ustr ''{}'') (Some (JObj []))"

text \<open>A PDF from which only the word \<open>Draft\<close> is read.\<close>

definition example_env_short :: "unit env" where
  "example_env_short = example_env example_file (ustr ''Draft'') (ustr ''{}'') (Some (JObj []))"

text \<open>A PDF from which 50,001 letters are read.\<close>

definition example_long_text :: jsstring where
  "example_long_text = replicate 50001 0x61"

definition example_env_long :: "unit env" where
  "example_env_long = example_env example_file example_long_text (ustr ''{}'') (Some (JObj []))"

text \<open>
  A snapshot whose fields are not strings: a number, \<open>null\<close>, an array, a boolean,
  an object, and an object with a property \<open>toString\<close>; \<open>deliverables\<close> is missing.
\<close>

definition example_odd_snapshot :: "unit json" where
  "example_odd_snapshot =
     JObj [(ustr ''parties'', JNum ()),
           (ustr ''dates'', JNull),
           (ustr ''term'', JArr [JStr (ustr ''a''), JNull, JBool True]),
           (ustr ''rate'', JBool False),
           (ustr ''usage'', JObj [(ustr ''x'', JNull)]),
           (ustr ''billing'', JObj [(ustr ''toString'', JNull)])]"

section \<open>Strings and patterns\<close>

lemma length_ustr [simp]: "length (ustr s) = length s"
  by (simp add: ustr_def)

lemma Canonicalize_lower_cu:
  "plain_cu a \<Longrightarrow> Canonicalize x = Canonicalize a \<longleftrightarrow> lower_cu x = a"
  unfolding plain_cu_def Canonicalize_def lower_cu_def
  by (auto simp: word_le_nat_alt unat_sub unat_plus_if' word_unat_eq_iff) 


lemma ci_lower:
  "list_all plain_cu p \<Longrightarrow> map Canonicalize t = map Canonicalize p \<longleftrightarrow> map lower_cu t = p"
proof (induction p arbitrary: t)
  case Nil
  then show ?case by simp
next
  case (Cons a p)
  then show ?case by (cases t) (auto simp: Canonicalize_lower_cu)
qed

lemma rmatch_Lits:
  "rmatch (Lits p) s =
     (if length p \<le> length s \<and> map Canonicalize (take (length p) s) = map Canonicalize p
      then [drop (length p) s] else [])"
proof (induction p arbitrary: s)
  case Nil
  then show ?case by simp
next
  case (Cons a p)
  show ?case
  proof (cases s)
    case Nil
    then show ?thesis by simp
  next
    case (Cons x xs)
    show ?thesis
    proof (cases "Canonicalize x = Canonicalize a")
      case True
      then have "rmatch (Lits (a # p)) s = rmatch (Lits p) xs"
        using Cons by simp
      also note Cons.IH [of xs]
      finally show ?thesis using True Cons by simp
    next
      case False
      then show ?thesis using Cons by simp
    qed
  qed
qed

lemma rmatch_Seq_Lits:
  "rmatch (Seq (Lits p) r) s =
     (if length p \<le> length s \<and> map Canonicalize (take (length p) s) = map Canonicalize p
      then rmatch r (drop (length p) s) else [])"
  by (auto simp: rmatch_Lits)

lemma regex_test_iff: "regex_test r s \<longleftrightarrow> (\<exists>i\<le>length s. rmatch r (drop i s) \<noteq> [])"
proof (induction s)
  case Nil
  then show ?case by simp
next
  case (Cons x xs)
  have "(\<exists>i\<le>length (x # xs). rmatch r (drop i (x # xs)) \<noteq> []) \<longleftrightarrow>
        rmatch r (x # xs) \<noteq> [] \<or> (\<exists>i\<le>length xs. rmatch r (drop i xs) \<noteq> [])"
  proof
    assume "\<exists>i\<le>length (x # xs). rmatch r (drop i (x # xs)) \<noteq> []"
    then obtain i where i: "i \<le> length (x # xs)" "rmatch r (drop i (x # xs)) \<noteq> []" by blast
    show "rmatch r (x # xs) \<noteq> [] \<or> (\<exists>i\<le>length xs. rmatch r (drop i xs) \<noteq> [])"
    proof (cases i)
      case 0
      with i show ?thesis by simp
    next
      case (Suc j)
      with i show ?thesis by auto
    qed
  next
    assume "rmatch r (x # xs) \<noteq> [] \<or> (\<exists>i\<le>length xs. rmatch r (drop i xs) \<noteq> [])"
    then show "\<exists>i\<le>length (x # xs). rmatch r (drop i (x # xs)) \<noteq> []"
    proof
      assume "rmatch r (x # xs) \<noteq> []"
      then have "0 \<le> length (x # xs) \<and> rmatch r (drop 0 (x # xs)) \<noteq> []" by simp
      then show ?thesis by blast
    next
      assume "\<exists>i\<le>length xs. rmatch r (drop i xs) \<noteq> []"
      then obtain i where "i \<le> length xs" "rmatch r (drop i xs) \<noteq> []" by blast
      then have "Suc i \<le> length (x # xs) \<and> rmatch r (drop (Suc i) (x # xs)) \<noteq> []" by simp
      then show ?thesis by blast
    qed
  qed
  with Cons.IH show ?case by simp
qed

lemma in_rmatch_Lits:
  "t \<in> set (rmatch (Lits p) s) \<longleftrightarrow> (\<exists>u. s = u @ t \<and> map Canonicalize u = map Canonicalize p)"
proof
  assume "t \<in> set (rmatch (Lits p) s)"
  then have "length p \<le> length s" "map Canonicalize (take (length p) s) = map Canonicalize p"
    "t = drop (length p) s"
    by (auto simp: rmatch_Lits split: if_splits)
  then have "s = take (length p) s @ t \<and> map Canonicalize (take (length p) s) = map Canonicalize p"
    by simp
  then show "\<exists>u. s = u @ t \<and> map Canonicalize u = map Canonicalize p" by blast
next
  assume "\<exists>u. s = u @ t \<and> map Canonicalize u = map Canonicalize p"
  then obtain u where u: "s = u @ t" "map Canonicalize u = map Canonicalize p" by blast
  from u(2) have "length u = length p" using map_eq_imp_length_eq by blast
  with u show "t \<in> set (rmatch (Lits p) s)" by (simp add: rmatch_Lits)
qed

lemma in_rmatch_Seq:
  "t \<in> set (rmatch (Seq a b) s) \<longleftrightarrow> (\<exists>m. m \<in> set (rmatch a s) \<and> t \<in> set (rmatch b m))"
  by auto

lemma in_rmatch_Chr:
  "t \<in> set (rmatch (Chr c) s) \<longleftrightarrow> (\<exists>x. s = x # t \<and> Canonicalize x = Canonicalize c)"
  by (cases s) auto

lemma rmatch_nonempty: "rmatch r s \<noteq> [] \<longleftrightarrow> (\<exists>t. t \<in> set (rmatch r s))"
  by (cases "rmatch r s") auto

lemma ustr_Cons: "ustr (c # cs) = of_char c # ustr cs"
  by (simp add: ustr_def)

lemma ustr_Nil: "ustr [] = []"
  by (simp add: ustr_def)

lemma rmatch_allowed_ci:
  "rmatch allowed s \<noteq> [] \<longleftrightarrow>
     map Canonicalize s = map Canonicalize (ustr ''.pdf'') \<or>
     map Canonicalize s = map Canonicalize (ustr ''.doc'') \<or>
     map Canonicalize s = map Canonicalize (ustr ''.docx'') \<or>
     map Canonicalize s = map Canonicalize (ustr ''.rtf'')"
  (is "?L \<longleftrightarrow> ?R")
proof -
  have "?L \<longleftrightarrow> (\<exists>x u. s = x # u \<and> Canonicalize x = Canonicalize 0x2E \<and>
          (map Canonicalize u = map Canonicalize (ustr ''pdf'') \<or>
           (\<exists>v. u = v @ [] \<and> map Canonicalize v = map Canonicalize (ustr ''doc'')) \<or>
           (\<exists>v y. u = v @ [y] \<and> map Canonicalize v = map Canonicalize (ustr ''doc'') \<and>
                  Canonicalize y = Canonicalize 0x78) \<or>
           map Canonicalize u = map Canonicalize (ustr ''rtf'')))"
    unfolding rmatch_nonempty allowed_def
    by (simp add: in_rmatch_Seq in_rmatch_Lits in_rmatch_Chr ex_disj_distrib
        conj_disj_distribL conj_disj_distribR del: rmatch.simps(4) Lits.simps) blast
  also have "\<dots> \<longleftrightarrow> ?R"
    by (cases s) (auto simp: ustr_Cons ustr_Nil)
  finally show ?thesis .
qed


lemma endsWith_iff: "endsWith t e \<longleftrightarrow> (\<exists>i\<le>length t. drop i t = e)"
proof
  assume "endsWith t e"
  then have "length t - length e \<le> length t \<and> drop (length t - length e) t = e"
    by (simp add: endsWith_def)
  then show "\<exists>i\<le>length t. drop i t = e" by blast
next
  assume "\<exists>i\<le>length t. drop i t = e"
  then obtain i where i: "i \<le> length t" "drop i t = e" by blast
  then have "length e = length t - i" by auto
  with i have "length t - length e = i" by simp
  with i show "endsWith t e" by (auto simp: endsWith_def)
qed

lemma allowed_lower:
  "rmatch allowed s \<noteq> [] \<longleftrightarrow>
     map lower_cu s = ustr ''.pdf'' \<or> map lower_cu s = ustr ''.doc'' \<or>
     map lower_cu s = ustr ''.docx'' \<or> map lower_cu s = ustr ''.rtf''"
proof -
  have "list_all plain_cu (ustr ''.pdf'')" "list_all plain_cu (ustr ''.doc'')"
    "list_all plain_cu (ustr ''.docx'')" "list_all plain_cu (ustr ''.rtf'')"
    by (simp_all add: ustr_def plain_cu_def)
  then show ?thesis
    by (simp add: rmatch_allowed_ci ci_lower)
qed

lemma allowed_test_iff: "regex_test allowed n \<longleftrightarrow> has_allowed_extension n"
proof -
  have "regex_test allowed n \<longleftrightarrow>
        (\<exists>i\<le>length n. drop i (toLowerCase n) = ustr ''.pdf'' \<or>
                       drop i (toLowerCase n) = ustr ''.doc'' \<or>
                       drop i (toLowerCase n) = ustr ''.docx'' \<or>
                       drop i (toLowerCase n) = ustr ''.rtf'')"
    by (simp add: regex_test_iff allowed_lower toLowerCase_def drop_map)
  also have "\<dots> \<longleftrightarrow> has_allowed_extension n"
    by (auto simp: has_allowed_extension_def endsWith_iff toLowerCase_def ustr_def)
  finally show ?thesis .
qed

section \<open>Both handlers are \<open>run\<close>\<close>

lemma POST_run:
  "POST env = (respond_route env (fst (run system_route env)), snd (run system_route env))"
proof (cases "formData_file env")
  case Throws
  then show ?thesis by (simp add: POST_def run_def)
next
  case (Returns fo)
  show ?thesis
  proof (cases fo)
    case None
    with Returns show ?thesis by (simp add: POST_def run_def)
  next
    case (Some fe)
    show ?thesis
    proof (cases "entry_arrayBuffer fe")
      case Throws
      with Returns Some show ?thesis by (simp add: POST_def run_def Let_def)
    next
      case R: (Returns u)
      obtain x calls where X: "extractText env (entry_name fe) (entry_type fe) = (x, calls)"
        by (cases "extractText env (entry_name fe) (entry_type fe)")
      show ?thesis
      proof (cases x)
        case (Extracted tx)
        show ?thesis
        proof (cases "OpenAI_new env")
          case Throws
          with Returns Some R X Extracted show ?thesis
            by (simp add: POST_def run_def run_text_def run_reply_def Let_def)
        next
          case O: (Returns v)
          show ?thesis
          proof (cases "chat_completions_create env")
            case Throws
            with Returns Some R X Extracted O show ?thesis
              by (simp add: POST_def run_def run_text_def run_reply_def Let_def)
          next
            case C: (Returns c)
            show ?thesis
            proof (cases "review_out env c (take TEXT_LIMIT tx)")
              case None
              with Returns Some R X Extracted O C show ?thesis
                by (simp add: POST_def run_def run_text_def run_reply_def Let_def)
            next
              case S: (Some out)
              with Returns Some R X Extracted O C show ?thesis
                by (simp add: POST_def run_def run_text_def run_reply_def Let_def)
            qed
          qed
        qed
      next
        case PdfFailed
        with Returns Some R X show ?thesis
          by (simp add: POST_def run_def run_text_def Let_def)
      next
        case WordFailed
        with Returns Some R X show ?thesis
          by (simp add: POST_def run_def run_text_def Let_def)
      qed
    qed
  qed
qed

lemma POST_part_000_run:
  "POST_part_000 env =
     (respond_part_000 env (fst (run system_part_000 env)), snd (run system_part_000 env))"
proof (cases "formData_file env")
  case Throws
  then show ?thesis by (simp add: POST_part_000_def run_def)
next
  case (Returns fo)
  show ?thesis
  proof (cases fo)
    case None
    with Returns show ?thesis by (simp add: POST_part_000_def run_def)
  next
    case (Some fe)
    show ?thesis
    proof (cases "entry_arrayBuffer fe")
      case Throws
      with Returns Some show ?thesis by (simp add: POST_part_000_def run_def Let_def)
    next
      case R: (Returns u)
      obtain x calls where X: "extractText env (entry_name fe) (entry_type fe) = (x, calls)"
        by (cases "extractText env (entry_name fe) (entry_type fe)")
      show ?thesis
      proof (cases x)
        case (Extracted tx)
        show ?thesis
        proof (cases "OpenAI_new env")
          case Throws
          with Returns Some R X Extracted show ?thesis
            by (simp add: POST_part_000_def run_def run_text_def run_reply_def Let_def)
        next
          case O: (Returns v)
          show ?thesis
          proof (cases "chat_completions_create env")
            case Throws
            with Returns Some R X Extracted O show ?thesis
              by (simp add: POST_part_000_def run_def run_text_def run_reply_def Let_def)
          next
            case C: (Returns c)
            show ?thesis
            proof (cases "review_out env c (take TEXT_LIMIT tx)")
              case None
              with Returns Some R X Extracted O C show ?thesis
                by (simp add: POST_part_000_def run_def run_text_def run_reply_def Let_def)
            next
              case S: (Some out)
              with Returns Some R X Extracted O C show ?thesis
                by (simp add: POST_part_000_def run_def run_text_def run_reply_def Let_def)
            qed
          qed
        qed
      next
        case PdfFailed
        with Returns Some R X show ?thesis
          by (simp add: POST_part_000_def run_def run_text_def Let_def)
      next
        case WordFailed
        with Returns Some R X show ?thesis
          by (simp add: POST_part_000_def run_def run_text_def Let_def)
      qed
    qed
  qed
qed

section \<open>The steps of \<open>run\<close>\<close>

lemma run_accepted:
  "upload_accepted env f \<Longrightarrow>
     run sys env = run_text sys env (extractText env (Some (file_name f)) (Some (file_type f)))"
  by (auto simp: run_def upload_accepted_def falsy_entry_def entry_size_def entry_name_def
      entry_type_def entry_arrayBuffer_def)

lemma run_not_accepted:
  "\<forall>f. \<not> upload_accepted env f \<Longrightarrow>
     snd (run sys env) = [] \<and> (\<exists>st msg. fst (run sys env) = Failure st msg \<and> st \<in> {400, 413, 415, 500})"
  by (auto simp: run_def upload_accepted_def falsy_entry_def entry_size_def entry_name_def
      entry_type_def entry_arrayBuffer_def
      split: outcome.splits option.splits form_entry.splits if_splits)

lemma extractText_calls: "set (snd (extractText env fname mime)) \<subseteq> {PdfParse, Mammoth}"
  by (auto simp: extractText_def Let_def split: outcome.splits)

lemma extractText_no_chat:
  "extractText env fname mime = (x, calls) \<Longrightarrow> ChatCompletion req \<notin> set calls"
  using extractText_calls [of env fname mime] by auto

lemma run_reply_Success_D:
  "fst (run_reply sys env tx calls) = Success out \<Longrightarrow>
     OpenAI_new env = Returns () \<and>
     (\<exists>c. chat_completions_create env = Returns c \<and>
          review_out env c (take TEXT_LIMIT tx) = Some out) \<and>
     snd (run_reply sys env tx calls) =
       calls @ [ChatCompletion (chat_request_of sys (user_message (take TEXT_LIMIT tx)))]"
  by (auto simp: run_reply_def split: outcome.splits option.splits)

lemma run_reply_Failure_D:
  "fst (run_reply sys env tx calls) = Failure st msg \<Longrightarrow> st = 500"
  by (auto simp: run_reply_def split: outcome.splits option.splits)

lemma run_reply_called_D:
  "ChatCompletion req \<in> set (snd (run_reply sys env tx calls)) \<Longrightarrow>
   ChatCompletion req \<notin> set calls \<Longrightarrow>
     OpenAI_new env = Returns () \<and>
     req = chat_request_of sys (user_message (take TEXT_LIMIT tx)) \<and>
     snd (run_reply sys env tx calls) = calls @ [ChatCompletion req]"
  by (auto simp: run_reply_def split: outcome.splits option.splits)

lemma run_text_Extracted:
  "run_text sys env (Extracted tx, calls) =
     (if tx = [] \<or> length (trim tx) < 20 then
        (Failure 422 ''We couldn't extract readable text. Please export to PDF or DOCX and re-upload.'', calls)
      else run_reply sys env tx calls)"
  by (simp add: run_text_def)

lemma run_text_Success_D:
  assumes "fst (run_text sys env (x, calls)) = Success out"
  shows "\<exists>tx c. x = Extracted tx \<and> \<not> (tx = [] \<or> length (trim tx) < 20) \<and>
           OpenAI_new env = Returns () \<and>
           chat_completions_create env = Returns c \<and>
           review_out env c (take TEXT_LIMIT tx) = Some out \<and>
           snd (run_text sys env (x, calls)) =
             calls @ [ChatCompletion (chat_request_of sys (user_message (take TEXT_LIMIT tx)))]"
proof (cases x)
  case (Extracted tx)
  with assms have ns: "\<not> (tx = [] \<or> length (trim tx) < 20)"
    by (auto simp: run_text_def)
  with Extracted have eq: "run_text sys env (x, calls) = run_reply sys env tx calls"
    by (simp add: run_text_def)
  from assms eq run_reply_Success_D [of sys env tx calls out] Extracted ns show ?thesis
    by auto
next
  case PdfFailed
  with assms show ?thesis by (simp add: run_text_def)
next
  case WordFailed
  with assms show ?thesis by (simp add: run_text_def)
qed

lemma run_Success_D:
  assumes "fst (run sys env) = Success out"
  shows "\<exists>f tx calls c.
     upload_accepted env f \<and>
     extractText env (Some (file_name f)) (Some (file_type f)) = (Extracted tx, calls) \<and>
     \<not> (tx = [] \<or> length (trim tx) < 20) \<and>
     OpenAI_new env = Returns () \<and>
     chat_completions_create env = Returns c \<and>
     review_out env c (take TEXT_LIMIT tx) = Some out \<and>
     snd (run sys env) =
       calls @ [ChatCompletion (chat_request_of sys (user_message (take TEXT_LIMIT tx)))]"
proof -
  from assms run_not_accepted [of env sys] obtain f where acc: "upload_accepted env f"
    by auto
  obtain x calls where X: "extractText env (Some (file_name f)) (Some (file_type f)) = (x, calls)"
    by (cases "extractText env (Some (file_name f)) (Some (file_type f))")
  from run_accepted [OF acc, of sys] X have eq: "run sys env = run_text sys env (x, calls)"
    by simp
  with assms run_text_Success_D [of sys env x calls out] X acc show ?thesis
    by auto
qed

lemma run_Failure_status:
  assumes "fst (run sys env) = Failure st msg"
  shows "st \<in> {400, 413, 415, 422, 500}"
proof (cases "\<exists>f. upload_accepted env f")
  case False
  with assms run_not_accepted [of env sys] show ?thesis by auto
next
  case True
  then obtain f where acc: "upload_accepted env f" ..
  obtain x calls where X: "extractText env (Some (file_name f)) (Some (file_type f)) = (x, calls)"
    by (cases "extractText env (Some (file_name f)) (Some (file_type f))")
  from run_accepted [OF acc, of sys] X have eq: "run sys env = run_text sys env (x, calls)"
    by simp
  show ?thesis
  proof (cases x)
    case (Extracted tx)
    with assms eq run_reply_Failure_D [of sys env tx calls st msg] show ?thesis
      by (auto simp: run_text_Extracted split: if_splits)
  next
    case PdfFailed
    with assms eq show ?thesis by (simp add: run_text_def)
  next
    case WordFailed
    with assms eq show ?thesis by (simp add: run_text_def)
  qed
qed

lemma run_called_D:
  assumes "ChatCompletion req \<in> set (snd (run sys env))"
  shows "\<exists>f tx calls.
     upload_accepted env f \<and>
     extractText env (Some (file_name f)) (Some (file_type f)) = (Extracted tx, calls) \<and>
     \<not> (tx = [] \<or> length (trim tx) < 20) \<and>
     OpenAI_new env = Returns () \<and>
     req = chat_request_of sys (user_message (take TEXT_LIMIT tx)) \<and>
     snd (run sys env) = calls @ [ChatCompletion req]"
proof -
  have "\<exists>f. upload_accepted env f"
  proof (rule ccontr)
    assume "\<not> (\<exists>f. upload_accepted env f)"
    then have "snd (run sys env) = []" using run_not_accepted [of env sys] by simp
    with assms show False by simp
  qed
  then obtain f where acc: "upload_accepted env f" ..
  obtain x calls where X: "extractText env (Some (file_name f)) (Some (file_type f)) = (x, calls)"
    by (cases "extractText env (Some (file_name f)) (Some (file_type f))")
  from run_accepted [OF acc, of sys] X have eq: "run sys env = run_text sys env (x, calls)"
    by simp
  note nc = extractText_no_chat [OF X]
  show ?thesis
  proof (cases x)
    case (Extracted tx)
    with assms eq nc run_reply_called_D [of req sys env tx calls] acc X show ?thesis
      by (auto simp: run_text_Extracted split: if_splits)
  next
    case PdfFailed
    with assms eq nc show ?thesis by (simp add: run_text_def)
  next
    case WordFailed
    with assms eq nc show ?thesis by (simp add: run_text_def)
  qed
qed


lemma length_trim_le: "length (trim s) \<le> length s"
proof -
  have "length (trim s) \<le> length (dropWhile isWhiteSpace s)"
    unfolding trim_def by (simp add: length_dropWhile_le order_trans [OF length_dropWhile_le])
  also have "\<dots> \<le> length s" by (rule length_dropWhile_le)
  finally show ?thesis .
qed

lemma run_short:
  assumes "upload_accepted env f"
    and "extractText env (Some (file_name f)) (Some (file_type f)) = (Extracted tx, calls)"
    and "tx = [] \<or> length (trim tx) < 20"
  shows "run sys env =
    (Failure 422 ''We couldn't extract readable text. Please export to PDF or DOCX and re-upload.'', calls)"
  using assms by (simp add: run_accepted run_text_Extracted)

lemma run_reply_result: "fst (run_reply sys env tx calls) = fst (run_reply sys' env tx calls)"
  by (simp add: run_reply_def split: outcome.split option.split)

lemma run_text_result: "fst (run_text sys env x) = fst (run_text sys' env x)"
  by (cases x) (simp add: run_text_def run_reply_result [of sys env _ _ sys'] split: extraction.split)

lemma run_result: "fst (run sys env) = fst (run sys' env)"
  by (simp add: run_def run_text_result [of sys env _ sys'] split: outcome.split option.split)

lemma respond_same:
  "status (respond_part_000 env r) = status (respond_route env r) \<and>
   body (respond_part_000 env r) = body (respond_route env r)"
  by (cases r) (simp_all add: NextResponse_json_def corsJson_def)

lemma run_long:
  assumes "upload_accepted env f"
    and "extractText env (Some (file_name f)) (Some (file_type f)) = (Extracted tx, calls)"
    and "\<not> (tx = [] \<or> length (trim tx) < 20)"
    and "OpenAI_new env = Returns ()"
    and "chat_completions_create env = Returns c"
    and "review_out env c (take TEXT_LIMIT tx) = Some out"
  shows "run sys env =
    (Success out, calls @ [ChatCompletion (chat_request_of sys (user_message (take TEXT_LIMIT tx)))])"
  using assms by (simp add: run_accepted run_text_Extracted run_reply_def)

lemma POST_200_D:
  assumes "status (fst (POST env)) = 200"
  shows "\<exists>out. fst (run system_route env) = Success out \<and>
           body (fst (POST env)) = stringify_out (isFinite env) out"
proof (cases "fst (run system_route env)")
  case (Failure st msg)
  with assms run_Failure_status [OF Failure] show ?thesis
    by (auto simp: POST_run NextResponse_json_def)
next
  case (Success out)
  then show ?thesis by (simp add: POST_run)
qed

lemma run_unsupported:
  assumes "formData_file env = Returns (Some (FileEntry f))"
    and "file_size f \<le> MAX_BYTES"
    and "file_name f \<noteq> []"
    and "\<not> has_allowed_extension (file_name f)"
  shows "run sys env =
     (Failure 415 ''Unsupported file type. Please upload a PDF or Word document.'', [])"
  using assms
  by (simp add: run_def falsy_entry_def entry_size_def entry_name_def allowed_test_iff)

lemma Get_rawText:
  "Get (stringify_out fin out) (ustr ''rawText'') = Some (JStr (rawText out))"
  by (simp add: stringify_out_def ustr_def)

lemma review_out_rawText: "review_out env c t = Some out \<Longrightarrow> rawText out = t"
  by (auto simp: review_out_def Let_def split: option.splits)

lemma trim_replicate: "\<not> isWhiteSpace x \<Longrightarrow> trim (replicate n x) = replicate n x"
  by (cases n) (simp_all add: trim_def del: replicate.simps)

lemma review_out_empty_object:
  assumes "reply_data env (reply_content c) = JObj []"
  shows "review_out env c t =
     Some \<lparr> snapshot = \<lparr> parties = [], dates = [], term = [], rate = [], deliverables = [],
                          usage = [], brandBrief = None, additionalReqs = None, billing = None \<rparr>,
            risks = [], counters = [], rawText = t \<rparr>"
  using assms
  by (simp add: review_out_def s_normalizeSnapshot_def s_cleanStr_def orUndefined_def
      array_or_empty_def)

section \<open>The object \<open>out\<close> and its serialisation\<close>

lemma optGet_Some: "optGet (Some v) k = Get v k"
  by (cases v) simp_all

lemma Array_filter_Some:
  "Array_filter f xs = Some ys \<Longrightarrow>
     ys = filter (\<lambda>x. f x = Some True) xs \<and> (\<forall>x\<in>set xs. f x \<noteq> None)"
  by (induction xs arbitrary: ys) (auto split: option.splits if_splits)

lemma Array_filter_total:
  "\<forall>x\<in>set xs. f x \<noteq> None \<Longrightarrow> Array_filter f xs = Some (filter (\<lambda>x. f x = Some True) xs)"
  by (induction xs) (auto split: option.splits)

lemma review_out_D:
  assumes "review_out env c t = Some out"
  shows "snapshot out =
           s_normalizeSnapshot (numToString env)
             (Some (case Get (reply_data env (reply_content c)) (ustr ''snapshot'') of
                      None \<Rightarrow> JObj [] | Some JNull \<Rightarrow> JObj [] | Some v \<Rightarrow> v))"
    and "risks out = array_or_empty (Get (reply_data env (reply_content c)) (ustr ''risks''))"
    and "counters out =
           filter (\<lambda>x. late_fee_test (numToString env) x = Some False)
             (array_or_empty (Get (reply_data env (reply_content c)) (ustr ''counters'')))"
    and "rawText out = t"
proof -
  let ?cs = "array_or_empty (Get (reply_data env (reply_content c)) (ustr ''counters''))"
  let ?f = "\<lambda>c. map_option Not (late_fee_test (numToString env) c)"
  from assms obtain kept where k: "Array_filter ?f ?cs = Some kept"
    by (auto simp: review_out_def Let_def optGet_Some split: option.splits)
  with assms have out: "out =
      \<lparr> snapshot = s_normalizeSnapshot (numToString env)
           (Some (case Get (reply_data env (reply_content c)) (ustr ''snapshot'') of
                      None \<Rightarrow> JObj [] | Some JNull \<Rightarrow> JObj [] | Some v \<Rightarrow> v)),
        risks = array_or_empty (Get (reply_data env (reply_content c)) (ustr ''risks'')),
        counters = kept, rawText = t \<rparr>"
    by (simp add: review_out_def Let_def optGet_Some)
  have "(\<lambda>x. ?f x = Some True) = (\<lambda>x. late_fee_test (numToString env) x = Some False)"
    by (auto simp: fun_eq_iff)
  with Array_filter_Some [OF k] have "kept = filter (\<lambda>x. late_fee_test (numToString env) x = Some False) ?cs"
    by simp
  with out show "snapshot out =
           s_normalizeSnapshot (numToString env)
             (Some (case Get (reply_data env (reply_content c)) (ustr ''snapshot'') of
                      None \<Rightarrow> JObj [] | Some JNull \<Rightarrow> JObj [] | Some v \<Rightarrow> v))"
    and "risks out = array_or_empty (Get (reply_data env (reply_content c)) (ustr ''risks''))"
    and "counters out =
           filter (\<lambda>x. late_fee_test (numToString env) x = Some False)
             (array_or_empty (Get (reply_data env (reply_content c)) (ustr ''counters'')))"
    and "rawText out = t"
    by simp_all
qed

lemma Get_stringify_out:
  "Get (stringify_out fin out) (ustr ''snapshot'') = Some (stringify_snapshot (snapshot out))"
  "Get (stringify_out fin out) (ustr ''risks'') = Some (JArr (map (stringify_value fin) (risks out)))"
  "Get (stringify_out fin out) (ustr ''counters'') =
     Some (JArr (map (stringify_value fin) (counters out)))"
  by (simp_all add: stringify_out_def ustr_def)

lemma Get_stringify_snapshot:
  "Get (stringify_snapshot s) (ustr ''parties'') = Some (JStr (parties s))"
  "Get (stringify_snapshot s) (ustr ''dates'') = Some (JStr (dates s))"
  "Get (stringify_snapshot s) (ustr ''term'') = Some (JStr (term s))"
  "Get (stringify_snapshot s) (ustr ''rate'') = Some (JStr (rate s))"
  "Get (stringify_snapshot s) (ustr ''deliverables'') = Some (JStr (deliverables s))"
  "Get (stringify_snapshot s) (ustr ''usage'') = Some (JStr (usage s))"
  "Get (stringify_snapshot s) (ustr ''brandBrief'') = map_option JStr (brandBrief s)"
  "Get (stringify_snapshot s) (ustr ''additionalReqs'') = map_option JStr (additionalReqs s)"
  "Get (stringify_snapshot s) (ustr ''billing'') = map_option JStr (billing s)"
  by (simp_all add: stringify_snapshot_def optional_property_def ustr_def split: option.split)

lemma stringify_snapshot_values:
  "Get (stringify_snapshot s) k = Some v \<Longrightarrow> is_string v"
  by (auto simp: stringify_snapshot_def optional_property_def split: option.splits if_splits)

lemma POST_200_full:
  assumes "status (fst (POST env)) = 200"
  shows "\<exists>f tx calls c out.
     upload_accepted env f \<and>
     extractText env (Some (file_name f)) (Some (file_type f)) = (Extracted tx, calls) \<and>
     chat_completions_create env = Returns c \<and>
     review_out env c (take TEXT_LIMIT tx) = Some out \<and>
     body (fst (POST env)) = stringify_out (isFinite env) out"
proof -
  from POST_200_D [OF assms] obtain out where
    out: "fst (run system_route env) = Success out"
      "body (fst (POST env)) = stringify_out (isFinite env) out"
    by blast
  from run_Success_D [OF out(1)] out(2) show ?thesis by blast
qed

lemma late_fee_test_JStr: "late_fee_test nts (JStr s) = Some (regex_test late_fee s)"
  by (simp add: late_fee_test_def)

lemma stringify_value_JStr: "stringify_value fin c = JStr s \<longleftrightarrow> c = JStr s"
  by (cases c) auto

lemma part_000_status_body:
  "status (fst (POST_part_000 env)) = status (fst (POST env))"
  "body (fst (POST_part_000 env)) = body (fst (POST env))"
  by (simp_all add: POST_run POST_part_000_run respond_same
      run_result [of system_part_000 env system_route])

lemma Get_stringify_value:
  "Get (stringify_value fin v) k = map_option (stringify_value fin) (Get v k)"
proof (cases v)
  case (JObj kvs)
  have "map_of (map (\<lambda>kv. (fst kv, stringify_value fin (snd kv))) kvs) k =
        map_option (stringify_value fin) (map_of kvs k)"
    by (induction kvs) auto
  with JObj show ?thesis by simp
qed simp_all

lemma risk_ok_stringify_value: "risk_ok r \<Longrightarrow> risk_ok (stringify_value fin r)"
  by (auto simp: risk_ok_def Get_stringify_value split: option.splits json.splits)

lemma orUndefined_cases: "orUndefined x = None \<or> (x \<noteq> [] \<and> orUndefined x = Some x)"
  by (simp add: orUndefined_def)

lemma normalized_optional:
  "brandBrief (s_normalizeSnapshot nts s) = orUndefined (s_cleanStr nts (optGet s (ustr ''brandBrief'')))"
  "additionalReqs (s_normalizeSnapshot nts s) =
     orUndefined (s_cleanStr nts (optGet s (ustr ''additionalReqs'')))"
  "billing (s_normalizeSnapshot nts s) = orUndefined (s_cleanStr nts (optGet s (ustr ''billing'')))"
  by (simp_all add: s_normalizeSnapshot_def)

lemma normalized_mandatory:
  "parties (s_normalizeSnapshot nts s) = s_cleanStr nts (optGet s (ustr ''parties''))"
  "dates (s_normalizeSnapshot nts s) = s_cleanStr nts (optGet s (ustr ''dates''))"
  "term (s_normalizeSnapshot nts s) = s_cleanStr nts (optGet s (ustr ''term''))"
  "rate (s_normalizeSnapshot nts s) = s_cleanStr nts (optGet s (ustr ''rate''))"
  "deliverables (s_normalizeSnapshot nts s) = s_cleanStr nts (optGet s (ustr ''deliverables''))"
  "usage (s_normalizeSnapshot nts s) = s_cleanStr nts (optGet s (ustr ''usage''))"
  by (simp_all add: s_normalizeSnapshot_def)

lemma Get_normalized_optional:
  assumes "k \<in> set optional_fields"
  shows "Get (stringify_snapshot (s_normalizeSnapshot nts s)) (ustr k) =
           map_option JStr (orUndefined (s_cleanStr nts (optGet s (ustr k))))"
  using assms by (auto simp: optional_fields_def Get_stringify_snapshot normalized_optional)

lemma Get_normalized_mandatory:
  assumes "k \<in> set mandatory_fields"
  shows "Get (stringify_snapshot (s_normalizeSnapshot nts s)) (ustr k) =
           Some (JStr (s_cleanStr nts (optGet s (ustr k))))"
  using assms by (auto simp: mandatory_fields_def Get_stringify_snapshot normalized_mandatory)

lemma review_out_total:
  assumes "\<forall>x\<in>set (array_or_empty (Get (reply_data env (reply_content c)) (ustr ''counters''))).
             late_fee_test (numToString env) x \<noteq> None"
  shows "\<exists>out. review_out env c t = Some out"
proof -
  let ?cs = "array_or_empty (Get (reply_data env (reply_content c)) (ustr ''counters''))"
  let ?f = "\<lambda>c. map_option Not (late_fee_test (numToString env) c)"
  from assms have "\<forall>x\<in>set ?cs. ?f x \<noteq> None" by simp
  from Array_filter_total [OF this] show ?thesis
    by (simp add: review_out_def Let_def optGet_Some)
qed

lemma is_string_conv: "is_string v \<longleftrightarrow> (\<exists>s. v = JStr s)"
  by (cases v) simp_all

lemma stringify_value_strings:
  "list_all is_string xs \<Longrightarrow> map (stringify_value fin) xs = xs"
  by (induction xs) (auto simp: is_string_conv)

lemma stringify_value_risk: "risk_schema r \<Longrightarrow> stringify_value fin r = r"
proof -
  assume "risk_schema r"
  then obtain kvs where r: "r = JObj kvs" and all: "list_all (\<lambda>kv. is_string (snd kv)) kvs"
    by (auto simp: risk_schema_def split: json.splits)
  from all have "map (\<lambda>kv. (fst kv, stringify_value fin (snd kv))) kvs = kvs"
    by (induction kvs) (auto simp: is_string_conv)
  with r show ?thesis by simp
qed

lemma stringify_value_risks:
  "list_all risk_schema rs \<Longrightarrow> map (stringify_value fin) rs = rs"
  by (induction rs) (auto simp: stringify_value_risk)

lemma filter_strings:
  "list_all is_string cs \<Longrightarrow>
     filter (\<lambda>x. late_fee_test nts x = Some False) cs = filter no_late_fee cs"
  by (induction cs) (auto simp: is_string_conv late_fee_test_JStr)

lemma s_cleanStr_schema:
  "s_cleanStr nts (Some (JStr s)) = s" "s_cleanStr nts (Some JNull) = []"
  by (simp_all add: s_cleanStr_def)

lemma snapshot_schema_mandatory:
  assumes "snapshot_schema v" and "k \<in> set mandatory_fields"
  shows "\<exists>s. Get v (ustr k) = Some (JStr s)"
proof -
  from assms have "case Get v (ustr k) of Some (JStr _) \<Rightarrow> True | _ \<Rightarrow> False"
    by (simp add: snapshot_schema_def list_all_iff)
  then show ?thesis
    by (cases "Get v (ustr k)") (auto split: json.splits)
qed

lemma snapshot_schema_optional:
  assumes "snapshot_schema v" and "k \<in> set optional_fields"
  shows "(\<exists>s. Get v (ustr k) = Some (JStr s)) \<or> Get v (ustr k) = Some JNull"
proof -
  from assms have "case Get v (ustr k) of Some (JStr _) \<Rightarrow> True | Some JNull \<Rightarrow> True | _ \<Rightarrow> False"
    by (simp add: snapshot_schema_def list_all_iff)
  then show ?thesis
    by (cases "Get v (ustr k)") (auto split: json.splits)
qed

section \<open>The pattern \<open>late fee\<close> and serialisation\<close>

lemma late_fee_iff:
  "regex_test late_fee s \<longleftrightarrow>
     (\<exists>u v w. s = u @ v @ w \<and> map Canonicalize v = map Canonicalize (ustr ''late fee''))"
proof
  assume "regex_test late_fee s"
  then obtain i where i: "i \<le> length s" "rmatch late_fee (drop i s) \<noteq> []"
    by (auto simp: regex_test_iff)
  let ?p = "ustr ''late fee''"
  from i(2) have "length ?p \<le> length (drop i s)"
    "map Canonicalize (take (length ?p) (drop i s)) = map Canonicalize ?p"
    by (auto simp: late_fee_def rmatch_Lits split: if_splits)
  moreover have "s = take i s @ take n (drop i s) @ drop n (drop i s)" for n
    by (simp only: append_take_drop_id)
  ultimately show "\<exists>u v w. s = u @ v @ w \<and> map Canonicalize v = map Canonicalize ?p"
    by blast
next
  let ?p = "ustr ''late fee''"
  assume "\<exists>u v w. s = u @ v @ w \<and> map Canonicalize v = map Canonicalize ?p"
  then obtain u v w where s: "s = u @ v @ w" and v: "map Canonicalize v = map Canonicalize ?p"
    by blast
  from v have len: "length v = length ?p" using map_eq_imp_length_eq by blast
  with s v have "rmatch late_fee (drop (length u) s) \<noteq> []"
    by (simp add: late_fee_def rmatch_Lits)
  moreover from s have "length u \<le> length s" by simp
  ultimately show "regex_test late_fee s" unfolding regex_test_iff by blast
qed

lemma late_fee_mono: "regex_test late_fee a \<Longrightarrow> regex_test late_fee (x @ a @ y)"
proof -
  assume "regex_test late_fee a"
  then obtain u v w where "a = u @ v @ w" "map Canonicalize v = map Canonicalize (ustr ''late fee'')"
    unfolding late_fee_iff by blast
  then have "x @ a @ y = (x @ u) @ v @ (w @ y) \<and>
      map Canonicalize v = map Canonicalize (ustr ''late fee'')" by simp
  then show ?thesis unfolding late_fee_iff by blast
qed

lemma no_comma:
  assumes "map Canonicalize v = map Canonicalize (ustr ''late fee'')"
  shows "0x2C \<notin> set v"
proof
  assume "0x2C \<in> set v"
  then have "Canonicalize 0x2C \<in> Canonicalize ` set v" by (rule imageI)
  then have "Canonicalize 0x2C \<in> set (map Canonicalize v)" by simp
  with assms have "Canonicalize 0x2C \<in> set (map Canonicalize (ustr ''late fee''))" by simp
  then show False by (simp add: ustr_def Canonicalize_def)
qed

lemma late_fee_comma:
  assumes "regex_test late_fee (a @ 0x2C # b)"
  shows "regex_test late_fee a \<or> regex_test late_fee b"
proof -
  from assms obtain u v w where
    s: "a @ 0x2C # b = u @ v @ w" and v: "map Canonicalize v = map Canonicalize (ustr ''late fee'')"
    unfolding late_fee_iff by blast
  note nc = no_comma [OF v]
  from s obtain t where "(a = u @ t \<and> t @ 0x2C # b = v @ w) \<or> (a @ t = u \<and> 0x2C # b = t @ v @ w)"
    unfolding append_eq_append_conv2 by blast
  then show ?thesis
  proof
    assume 1: "a = u @ t \<and> t @ 0x2C # b = v @ w"
    then obtain t2 where "(t = v @ t2 \<and> t2 @ 0x2C # b = w) \<or> (t @ t2 = v \<and> 0x2C # b = t2 @ w)"
      unfolding append_eq_append_conv2 by blast
    then show ?thesis
    proof
      assume "t = v @ t2 \<and> t2 @ 0x2C # b = w"
      with 1 have "a = u @ v @ t2" by simp
      with v show ?thesis unfolding late_fee_iff by blast
    next
      assume 2: "t @ t2 = v \<and> 0x2C # b = t2 @ w"
      show ?thesis
      proof (cases t2)
        case Nil
        with 1 2 have "a = u @ v @ []" by simp
        with v show ?thesis unfolding late_fee_iff by blast
      next
        case (Cons c t3)
        with 2 have "0x2C \<in> set v" by auto
        with nc show ?thesis by simp
      qed
    qed
  next
    assume 1: "a @ t = u \<and> 0x2C # b = t @ v @ w"
    show ?thesis
    proof (cases t)
      case Nil
      with 1 have "0x2C # b = v @ w" by simp
      moreover from v have "v \<noteq> []" by (auto simp: ustr_def)
      ultimately have "0x2C \<in> set v" by (cases v) auto
      with nc show ?thesis by simp
    next
      case (Cons c t3)
      with 1 have "b = t3 @ v @ w" by simp
      with v show ?thesis unfolding late_fee_iff by blast
    qed
  qed
qed

lemma late_fee_not_short: "length s < 8 \<Longrightarrow> \<not> regex_test late_fee s"
proof
  assume l: "length s < 8" and "regex_test late_fee s"
  then obtain u v w where "s = u @ v @ w" "map Canonicalize v = map Canonicalize (ustr ''late fee'')"
    unfolding late_fee_iff by blast
  then have "length s = length u + length v + length w" "length v = 8"
    using map_eq_imp_length_eq [of Canonicalize v Canonicalize "ustr ''late fee''"] by simp_all
  with l show False by simp
qed


lemma stringify_value_JNull:
  "stringify_value fin x = JNull \<Longrightarrow> x = JNull \<or> (\<exists>n. x = JNum n \<and> \<not> fin n)"
  by (cases x) (auto split: if_splits)

lemma ustr_comma: "ustr '','' = [0x2C]"
  by (simp add: ustr_def)

lemma ToString_stringify_value:
  fixes nts :: "'n \<Rightarrow> jsstring"
  shows "ToString nts v = Some s \<Longrightarrow> ToString nts (stringify_value fin v) = Some s' \<Longrightarrow>
           regex_test late_fee s' \<Longrightarrow> regex_test late_fee s"
    and "ArrayJoin nts xs = Some s \<Longrightarrow> ArrayJoin nts (map (stringify_value fin) xs) = Some s' \<Longrightarrow>
           regex_test late_fee s' \<Longrightarrow> regex_test late_fee s"
proof (induction nts v and nts xs arbitrary: s s' and s s' rule: ToString_ArrayJoin.induct)
  case (1 nts)
  then show ?case by simp
next
  case (2 nts b)
  then show ?case by simp
next
  case (3 nts n)
  then show ?case
    by (cases "fin n") (auto simp: late_fee_not_short)
next
  case (4 nts s0)
  then show ?case by simp
next
  case (5 nts xs)
  then show ?case by simp
next
  case (6 nts kvs)
  have "fst ` set (map (\<lambda>kv. (fst kv, stringify_value fin (snd kv))) kvs) = fst ` set kvs"
    by (induction kvs) auto
  with 6 show ?case by (auto split: if_splits)
next
  case (7 nts)
  then show ?case by simp
next
  case (8 nts x xs)
  let ?x' = "stringify_value fin x"
  from "8.prems"(1) obtain p where
    p: "(if x = JNull then Some [] else ToString nts x) = Some p"
    by (auto split: option.splits)
  from "8.prems"(2) obtain p' where
    p': "(if ?x' = JNull then Some [] else ToString nts ?x') = Some p'"
    by (auto split: option.splits)
  have A: "regex_test late_fee p" if h: "regex_test late_fee p'"
  proof (cases "?x' = JNull")
    case True
    with p' have "p' = []" by simp
    with h late_fee_not_short [of p'] show ?thesis by simp
  next
    case False
    then have xn: "x \<noteq> JNull" by auto
    with p p' False have "ToString nts x = Some p" "ToString nts ?x' = Some p'" by simp_all
    from "8.IH"(1) [OF xn this h] show ?thesis .
  qed
  show ?case
  proof (cases "xs = []")
    case True
    with "8.prems" p p' have "s = p" "s' = p'" by (auto split: if_splits)
    with A "8.prems"(3) show ?thesis by simp
  next
    case False
    with "8.prems"(1) p obtain r where
      r: "ArrayJoin nts xs = Some r" and s: "s = p @ 0x2C # r"
      by (auto simp: ustr_comma split: option.splits if_splits)
    from False "8.prems"(2) p' obtain r' where
      r': "ArrayJoin nts (map (stringify_value fin) xs) = Some r'" and s': "s' = p' @ 0x2C # r'"
      by (auto simp: ustr_comma split: option.splits if_splits)
    from "8.prems"(3) s' late_fee_comma [of p' r']
    have "regex_test late_fee p' \<or> regex_test late_fee r'" by simp
    then show ?thesis
    proof
      assume "regex_test late_fee p'"
      from late_fee_mono [OF A [OF this], of "[]" "0x2C # r"] s show ?thesis by simp
    next
      assume h: "regex_test late_fee r'"
      from "8.IH"(2) [OF p False r r' h] have "regex_test late_fee r" .
      from late_fee_mono [OF this, of "p @ [0x2C]" "[]"] s show ?thesis by simp
    qed
  qed
qed

lemma late_fee_test_stringify_value:
  assumes "late_fee_test nts c = Some False"
  shows "late_fee_test nts (stringify_value fin c) \<noteq> Some True"
proof
  assume "late_fee_test nts (stringify_value fin c) = Some True"
  then obtain s' where s': "ToString nts (stringify_value fin c) = Some s'" "regex_test late_fee s'"
    by (auto simp: late_fee_test_def)
  from assms obtain s where s: "ToString nts c = Some s" "\<not> regex_test late_fee s"
    by (auto simp: late_fee_test_def)
  from ToString_stringify_value(1) [OF s(1) s'] s(2) show False by simp
qed

section \<open>The example requests\<close>

lemma example_file_accepted: "upload_accepted (example_env example_file t c p) example_file"
  by (simp add: upload_accepted_def example_env_def example_file_def MAX_BYTES_def allowed_def
      ustr_def Canonicalize_def)

lemma example_extract:
  "extractText (example_env f t c p) (Some (file_name example_file)) (Some (file_type example_file))
     = (Extracted t, [PdfParse])"
  by (simp add: extractText_def looksLikePDF_def extractTextFromPDF_def example_env_def
      example_file_def ustr_def startsWith_def)

lemma txt_not_allowed: "\<not> has_allowed_extension (ustr ''notes.txt'')"
  by (simp add: has_allowed_extension_def endsWith_def toLowerCase_def lower_cu_def ustr_def)

lemma example_reply_data:
  "reply_data (example_env f t c p) (reply_content (Completion [Some c])) =
     (case p of None \<Rightarrow> JObj [] | Some d \<Rightarrow> d)"
  by (simp add: reply_data_def reply_content_def example_env_def)

lemma example_env_simps:
  "OpenAI_new (example_env f t c p) = Returns ()"
  "chat_completions_create (example_env f t c p) = Returns (Completion [Some c])"
  "isFinite (example_env f t c p) = (\<lambda>n. True)"
  "formData_file (example_env f t c p) = Returns (Some (FileEntry f))"
  by (simp_all add: example_env_def)

lemma example_text_long_enough:
  "\<not> (example_text = [] \<or> length (trim example_text) < 20)"
  by (simp add: example_text_def trim_def ustr_def isWhiteSpace_def)

lemma example_run:
  assumes "review_out (example_env example_file example_text c p) (Completion [Some c])
             (take TEXT_LIMIT example_text) = Some out"
  shows "run sys (example_env example_file example_text c p) =
     (Success out,
      [PdfParse, ChatCompletion (chat_request_of sys (user_message (take TEXT_LIMIT example_text)))])"
  using run_long [OF example_file_accepted example_extract example_text_long_enough _ _ assms, of sys]
  by (simp add: example_env_simps)

lemma example_take: "take TEXT_LIMIT example_text = example_text"
  by (simp add: TEXT_LIMIT_def example_text_def)

lemma late_fee_examples:
  "\<not> regex_test late_fee (ustr ''Shorten term'')"
  "regex_test late_fee (ustr ''Add a Late Fee of 5%'')"
  by (simp_all add: late_fee_def ustr_def Canonicalize_def)

lemma example_full_out:
  "review_out example_env_full (Completion [Some example_reply]) t =
     Some \<lparr> snapshot =
              \<lparr> parties = ustr ''Acme and Jane'', dates = ustr ''2024'', term = ustr ''1 year'',
                rate = ustr ''500'', deliverables = ustr ''3 posts'', usage = ustr ''organic'',
                brandBrief = None, additionalReqs = None, billing = Some (ustr ''Net 30'') \<rparr>,
            risks = [JObj [(ustr ''label'', JStr (ustr ''Exclusivity'')),
                           (ustr ''level'', JStr (ustr ''High'')),
                           (ustr ''note'', JStr (ustr ''1 year''))]],
            counters = [JStr (ustr ''Shorten term'')],
            rawText = t \<rparr>"
proof -
  have d: "reply_data example_env_full (reply_content (Completion [Some example_reply])) = example_data"
    unfolding example_env_full_def by (simp add: example_reply_data)
  have g: "Get example_data (ustr ''snapshot'') =
             Some (JObj [(ustr ''parties'', JStr (ustr ''Acme and Jane'')),
                  (ustr ''dates'', JStr (ustr ''2024'')),
                  (ustr ''term'', JStr (ustr ''1 year'')),
                  (ustr ''rate'', JStr (ustr ''500'')),
                  (ustr ''deliverables'', JStr (ustr ''3 posts'')),
                  (ustr ''usage'', JStr (ustr ''organic'')),
                  (ustr ''brandBrief'', JNull),
                  (ustr ''additionalReqs'', JStr []),
                  (ustr ''billing'', JStr (ustr ''Net 30''))])"
    "Get example_data (ustr ''risks'') =
       Some (JArr [JObj [(ustr ''label'', JStr (ustr ''Exclusivity'')),
                        (ustr ''level'', JStr (ustr ''High'')),
                        (ustr ''note'', JStr (ustr ''1 year''))]])"
    "Get example_data (ustr ''counters'') =
       Some (JArr [JStr (ustr ''Shorten term''), JStr (ustr ''Add a Late Fee of 5%'')])"
    by (simp_all add: example_data_def ustr_def)
  have n: "s_normalizeSnapshot nts
             (Some (JObj [(ustr ''parties'', JStr (ustr ''Acme and Jane'')),
                  (ustr ''dates'', JStr (ustr ''2024'')),
                  (ustr ''term'', JStr (ustr ''1 year'')),
                  (ustr ''rate'', JStr (ustr ''500'')),
                  (ustr ''deliverables'', JStr (ustr ''3 posts'')),
                  (ustr ''usage'', JStr (ustr ''organic'')),
                  (ustr ''brandBrief'', JNull),
                  (ustr ''additionalReqs'', JStr []),
                  (ustr ''billing'', JStr (ustr ''Net 30''))])) =
           \<lparr> parties = ustr ''Acme and Jane'', dates = ustr ''2024'', term = ustr ''1 year'',
                rate = ustr ''500'', deliverables = ustr ''3 posts'', usage = ustr ''organic'',
                brandBrief = None, additionalReqs = None, billing = Some (ustr ''Net 30'') \<rparr>"
    for nts :: "unit \<Rightarrow> jsstring"
    by (simp add: s_normalizeSnapshot_def s_cleanStr_def orUndefined_def ustr_def)
  show ?thesis
    by (simp add: review_out_def d optGet_Some g n array_or_empty_def late_fee_test_JStr
        late_fee_examples)
qed


lemma example_full_POST:
  "POST example_env_full =
     (\<lparr> status = 200,
        headers = [(''Content-Type'', ''application/json''),
                   (''Cache-Control'', ''no-store, max-age=0'')],
        body = stringify_out (\<lambda>n. True)
          \<lparr> snapshot =
              \<lparr> parties = ustr ''Acme and Jane'', dates = ustr ''2024'', term = ustr ''1 year'',
                rate = ustr ''500'', deliverables = ustr ''3 posts'', usage = ustr ''organic'',
                brandBrief = None, additionalReqs = None, billing = Some (ustr ''Net 30'') \<rparr>,
            risks = [JObj [(ustr ''label'', JStr (ustr ''Exclusivity'')),
                           (ustr ''level'', JStr (ustr ''High'')),
                           (ustr ''note'', JStr (ustr ''1 year''))]],
            counters = [JStr (ustr ''Shorten term'')],
            rawText = example_text \<rparr> \<rparr>,
      [PdfParse, ChatCompletion (chat_request_of system_route (user_message example_text))])"
proof -
  note ro = example_full_out [of "take TEXT_LIMIT example_text"]
  from example_run [OF ro [unfolded example_env_full_def], of system_route]
  show ?thesis
    by (simp add: POST_run example_env_full_def example_take example_env_simps)
qed

lemma example_empty_POST:
  "POST example_env_empty =
     (\<lparr> status = 200,
        headers = [(''Content-Type'', ''application/json''),
                   (''Cache-Control'', ''no-store, max-age=0'')],
        body = stringify_out (\<lambda>n. True)
          \<lparr> snapshot = \<lparr> parties = [], dates = [], term = [], rate = [], deliverables = [],
                          usage = [], brandBrief = None, additionalReqs = None, billing = None \<rparr>,
            risks = [], counters = [], rawText = example_text \<rparr> \<rparr>,
      [PdfParse, ChatCompletion (chat_request_of system_route (user_message example_text))])"
proof -
  have "reply_data example_env_empty (reply_content (Completion [Some (ustr ''{}'')])) = JObj []"
    unfolding example_env_empty_def by (simp add: example_reply_data)
  note ro = review_out_empty_object [OF this, of "take TEXT_LIMIT example_text"]
  from example_run [OF ro [unfolded example_env_empty_def], of system_route]
  show ?thesis
    by (simp add: POST_run example_env_empty_def example_take example_env_simps)
qed

lemma example_data_schema: "reply_schema example_data"
  by (simp add: reply_schema_def snapshot_schema_def risk_schema_def risk_ok_def
      mandatory_fields_def optional_fields_def example_data_def ustr_def)

lemma example_data_counters:
  "lookup_path example_data [''counters''] =
     Some (JArr [JStr (ustr ''Shorten term''), JStr (ustr ''Add a Late Fee of 5%'')])"
  by (simp add: example_data_def ustr_def)

section \<open>The two handlers agree\<close>

text \<open>
  Claim C10. For every request, every outcome of the external calls and every reply
  of the language model, \<open>POST\<close> of \<open>src/unnamed/part_000\<close> answers with the same
  status and the same body as \<open>POST\<close> of \<open>src/app/api/review/route.ts\<close>. (Their
  headers differ, and so does the white space of the system prompt they send.)
\<close>

theorem handlers_agree:
  "status (fst (POST_part_000 env)) = status (fst (POST env)) \<and>
   body (fst (POST_part_000 env)) = body (fst (POST env))"
  by (simp add: POST_run POST_part_000_run respond_same run_result [of system_part_000 env system_route])

theorem handlers_agree_witness:
  "status (fst (POST_part_000 example_env_full)) = 200 \<and>
   body (fst (POST_part_000 example_env_full)) = body (fst (POST example_env_full)) \<and>
   headers (fst (POST_part_000 example_env_full)) \<noteq> headers (fst (POST example_env_full))"
proof -
  have "headers (fst (POST_part_000 example_env_full)) =
      CORS_HEADERS @ [(''Content-Type'', ''application/json'')]"
    by (cases "fst (run system_part_000 example_env_full)")
      (simp_all add: POST_part_000_run corsJson_def)
  then have "headers (fst (POST_part_000 example_env_full)) \<noteq> headers (fst (POST example_env_full))"
    by (simp add: example_full_POST CORS_HEADERS_def)
  with handlers_agree [of example_env_full] show ?thesis
    by (simp add: example_full_POST)
qed

section \<open>Text that is too short\<close>

text \<open>
  Claim C7. When the upload has passed the checks and the text extracted from it has
  fewer than 20 characters, the handler answers 422 with an error body, and the
  calls it has made are those of the extraction: the chat-completion API is not
  called.
\<close>

theorem short_text_is_rejected:
  assumes "upload_accepted env f"
    and "extractText env (Some (file_name f)) (Some (file_type f)) = (Extracted tx, calls)"
    and "length tx < 20"
  shows "POST env =
     (NextResponse_json
        (error_body ''We couldn't extract readable text. Please export to PDF or DOCX and re-upload.'')
        422, calls) \<and>
     (\<forall>req. ChatCompletion req \<notin> set (snd (POST env)))"
proof -
  from assms(3) length_trim_le [of tx] have "tx = [] \<or> length (trim tx) < 20" by simp
  from run_short [OF assms(1,2) this, of system_route] extractText_no_chat [OF assms(2)]
  show ?thesis by (simp add: POST_run)
qed

theorem short_text_is_rejected_witness:
  "upload_accepted example_env_short example_file \<and>
   extractText example_env_short (Some (file_name example_file)) (Some (file_type example_file))
     = (Extracted (ustr ''Draft''), [PdfParse]) \<and>
   length (ustr ''Draft'') < 20 \<and>
   POST example_env_short =
     (NextResponse_json
        (error_body ''We couldn't extract readable text. Please export to PDF or DOCX and re-upload.'')
        422, [PdfParse]) \<and>
   status (fst (POST example_env_short)) = 422"
proof -
  have a: "upload_accepted example_env_short example_file"
    unfolding example_env_short_def by (rule example_file_accepted)
  have b: "extractText example_env_short (Some (file_name example_file))
             (Some (file_type example_file)) = (Extracted (ustr ''Draft''), [PdfParse])"
    unfolding example_env_short_def by (rule example_extract)
  have c: "length (ustr ''Draft'') < 20" by simp
  from short_text_is_rejected [OF a b c] a b c show ?thesis
    by (simp add: NextResponse_json_def)
qed

section \<open>Unsupported file types\<close>

text \<open>
  Claim C6, as the code has it. The size is checked before the name, and a file
  without a name skips the check of the name. For every uploaded file of at most
  15MB whose name is not empty and has none of the extensions \<open>pdf\<close>, \<open>doc\<close>,
  \<open>docx\<close>, \<open>rtf\<close> (in any letter case), the handler answers 415 with an error body
  and has called no text extractor.
\<close>

theorem unsupported_extension_is_rejected:
  assumes "formData_file env = Returns (Some (FileEntry f))"
    and "file_size f \<le> MAX_BYTES"
    and "file_name f \<noteq> []"
    and "\<not> has_allowed_extension (file_name f)"
  shows "POST env =
     (NextResponse_json
        (error_body ''Unsupported file type. Please upload a PDF or Word document.'') 415, [])"
  using run_unsupported [OF assms, of system_route] by (simp add: POST_run)

theorem unsupported_extension_is_rejected_witness:
  "formData_file example_env_small_txt = Returns (Some (FileEntry example_small_txt)) \<and>
   file_size example_small_txt \<le> MAX_BYTES \<and>
   file_name example_small_txt \<noteq> [] \<and>
   \<not> has_allowed_extension (file_name example_small_txt) \<and>
   status (fst (POST example_env_small_txt)) = 415 \<and>
   snd (POST example_env_small_txt) = []"
proof -
  have a: "formData_file example_env_small_txt = Returns (Some (FileEntry example_small_txt))"
    by (simp add: example_env_small_txt_def example_env_def)
  have b: "file_size example_small_txt \<le> MAX_BYTES"
    by (simp add: example_small_txt_def MAX_BYTES_def)
  have c: "file_name example_small_txt \<noteq> []"
    by (simp add: example_small_txt_def ustr_def)
  have d: "\<not> has_allowed_extension (file_name example_small_txt)"
    using txt_not_allowed by (simp add: example_small_txt_def)
  from unsupported_extension_is_rejected [OF a b c d] a b c d show ?thesis
    by (simp add: NextResponse_json_def)
qed

text \<open>
  Claim C6 as stated fails for the file \<open>notes.txt\<close> of 16MB: the answer is 413.
\<close>

theorem large_file_is_413_counterexample:
  "formData_file example_env_big_txt = Returns (Some (FileEntry example_big_txt)) \<and>
   \<not> has_allowed_extension (file_name example_big_txt) \<and>
   status (fst (POST example_env_big_txt)) = 413"
proof -
  have "\<not> has_allowed_extension (file_name example_big_txt)"
    using txt_not_allowed by (simp add: example_big_txt_def)
  moreover have "run system_route example_env_big_txt =
      (Failure 413 ''File too large (max 15MB).'', [])"
    by (simp add: run_def example_env_big_txt_def example_env_def example_big_txt_def
        falsy_entry_def entry_size_def MAX_BYTES_def)
  ultimately show ?thesis
    by (simp add: POST_run NextResponse_json_def example_env_big_txt_def example_env_def)
qed

section \<open>Truncation of the text\<close>

text \<open>
  Claim C8. When the upload has passed the checks and text has been extracted from
  it, every chat-completion request of the handler carries, after the words
  \<open>Contract text:\<close> and two line feeds, exactly the first 50,000 code units of the
  extracted text, and the \<open>rawText\<close> of every 200 response is that same truncated
  text: 50,000 code units long when the text is longer, the whole text otherwise.
\<close>

theorem text_is_truncated:
  assumes "upload_accepted env f"
    and "extractText env (Some (file_name f)) (Some (file_type f)) = (Extracted tx, calls)"
  shows "(\<forall>req. ChatCompletion req \<in> set (snd (POST env)) \<longrightarrow>
            messages req =
              [(ustr ''system'', system_route),
               (ustr ''user'', ustr ''Contract text:\<newline>\<newline>'' @ take 50000 tx)]) \<and>
         (status (fst (POST env)) = 200 \<longrightarrow>
            Get (body (fst (POST env))) (ustr ''rawText'') = Some (JStr (take 50000 tx))) \<and>
         (50000 < length tx \<longrightarrow> length (take 50000 tx) = 50000) \<and>
         (length tx \<le> 50000 \<longrightarrow> take 50000 tx = tx)"
proof -
  have called: "messages req =
      [(ustr ''system'', system_route),
       (ustr ''user'', ustr ''Contract text:\<newline>\<newline>'' @ take 50000 tx)]"
    if "ChatCompletion req \<in> set (snd (POST env))" for req
  proof -
    from that have "ChatCompletion req \<in> set (snd (run system_route env))"
      by (simp add: POST_run)
    from run_called_D [OF this] obtain f' tx' calls' where
      acc: "upload_accepted env f'" and
      ex: "extractText env (Some (file_name f')) (Some (file_type f')) = (Extracted tx', calls')" and
      req: "req = chat_request_of system_route (user_message (take TEXT_LIMIT tx'))"
      by blast
    from acc assms(1) have "f' = f" by (simp add: upload_accepted_def)
    with ex assms(2) have "tx' = tx" by simp
    with req show ?thesis
      by (simp add: chat_request_of_def user_message_def TEXT_LIMIT_def)
  qed
  have ok: "Get (body (fst (POST env))) (ustr ''rawText'') = Some (JStr (take 50000 tx))"
    if "status (fst (POST env)) = 200"
  proof -
    from POST_200_D [OF that] obtain out where
      out: "fst (run system_route env) = Success out"
        "body (fst (POST env)) = stringify_out (isFinite env) out"
      by blast
    from run_Success_D [OF out(1)] obtain f' tx' calls' c where
      acc: "upload_accepted env f'" and
      ex: "extractText env (Some (file_name f')) (Some (file_type f')) = (Extracted tx', calls')" and
      ro: "review_out env c (take TEXT_LIMIT tx') = Some out"
      by blast
    from acc assms(1) have "f' = f" by (simp add: upload_accepted_def)
    with ex assms(2) have "tx' = tx" by simp
    with review_out_rawText [OF ro] out(2) show ?thesis
      by (simp add: Get_rawText TEXT_LIMIT_def)
  qed
  from called ok show ?thesis by simp
qed

theorem text_is_truncated_witness:
  "upload_accepted example_env_long example_file \<and>
   extractText example_env_long (Some (file_name example_file)) (Some (file_type example_file))
     = (Extracted example_long_text, [PdfParse]) \<and>
   length example_long_text = 50001 \<and>
   snd (POST example_env_long) =
     [PdfParse,
      ChatCompletion
        (chat_request_of system_route
           (ustr ''Contract text:\<newline>\<newline>'' @ replicate 50000 0x61))] \<and>
   status (fst (POST example_env_long)) = 200 \<and>
   Get (body (fst (POST example_env_long))) (ustr ''rawText'') = Some (JStr (replicate 50000 0x61))"
proof -
  have a: "upload_accepted example_env_long example_file"
    unfolding example_env_long_def by (rule example_file_accepted)
  have b: "extractText example_env_long (Some (file_name example_file))
             (Some (file_type example_file)) = (Extracted example_long_text, [PdfParse])"
    unfolding example_env_long_def by (rule example_extract)
  have len: "length example_long_text = 50001"
    by (simp add: example_long_text_def)
  have tk: "take 50000 example_long_text = replicate 50000 0x61"
    by (simp add: example_long_text_def)
  have "\<not> isWhiteSpace (0x61 :: jschar)" by (simp add: isWhiteSpace_def)
  then have tr: "trim example_long_text = example_long_text"
    unfolding example_long_text_def by (rule trim_replicate)
  have ns: "\<not> (example_long_text = [] \<or> length (trim example_long_text) < 20)"
    using len by (auto simp: tr)
  have "reply_data example_env_long (reply_content (Completion [Some (ustr ''{}'')])) = JObj []"
    unfolding example_env_long_def by (simp add: example_reply_data)
  from review_out_empty_object [OF this]
  obtain out where ro: "review_out example_env_long (Completion [Some (ustr ''{}'')])
          (take TEXT_LIMIT example_long_text) = Some out"
    by blast
  have r: "run system_route example_env_long =
     (Success out,
      [PdfParse] @ [ChatCompletion (chat_request_of system_route
          (user_message (take TEXT_LIMIT example_long_text)))])"
    by (rule run_long [OF a b ns _ _ ro]) (simp_all add: example_env_long_def example_env_simps)
  then have st: "status (fst (POST example_env_long)) = 200"
    and tr: "snd (POST example_env_long) =
       [PdfParse, ChatCompletion (chat_request_of system_route
          (ustr ''Contract text:\<newline>\<newline>'' @ replicate 50000 0x61))]"
    by (simp_all add: POST_run user_message_def TEXT_LIMIT_def tk)
  from text_is_truncated [OF a b] st have
    "Get (body (fst (POST example_env_long))) (ustr ''rawText'') = Some (JStr (take 50000 example_long_text))"
    by blast
  with a b len st tr tk show ?thesis by simp
qed

section \<open>A reply that is not JSON\<close>

text \<open>
  Claim C4. Whenever the handler has called the chat-completion API and the content
  of the completion is not parseable as JSON, the response is 200 and its body holds
  the normalisation of the empty object as \<open>snapshot\<close> (the six mandatory fields
  empty strings, no optional field), the empty list as \<open>risks\<close> and as \<open>counters\<close>,
  and the truncated extracted text as \<open>rawText\<close>.
\<close>

theorem unparseable_reply_gives_defaults:
  assumes "ChatCompletion req \<in> set (snd (POST env))"
    and "chat_completions_create env = Returns c"
    and "JSON_parse env (reply_content c) = None"
  shows "\<exists>f tx calls.
     upload_accepted env f \<and>
     extractText env (Some (file_name f)) (Some (file_type f)) = (Extracted tx, calls) \<and>
     status (fst (POST env)) = 200 \<and>
     body (fst (POST env)) =
       JObj [(ustr ''snapshot'',
              JObj [(ustr ''parties'', JStr []), (ustr ''dates'', JStr []),
                    (ustr ''term'', JStr []), (ustr ''rate'', JStr []),
                    (ustr ''deliverables'', JStr []), (ustr ''usage'', JStr [])]),
             (ustr ''risks'', JArr []),
             (ustr ''counters'', JArr []),
             (ustr ''rawText'', JStr (take 50000 tx))]"
proof -
  from assms(1) have "ChatCompletion req \<in> set (snd (run system_route env))"
    by (simp add: POST_run)
  from run_called_D [OF this] obtain f tx calls where
    acc: "upload_accepted env f" and
    ex: "extractText env (Some (file_name f)) (Some (file_type f)) = (Extracted tx, calls)" and
    ns: "\<not> (tx = [] \<or> length (trim tx) < 20)" and
    new: "OpenAI_new env = Returns ()"
    by blast
  from assms(3) have "reply_data env (reply_content c) = JObj []"
    by (simp add: reply_data_def)
  note ro = review_out_empty_object [OF this, of "take TEXT_LIMIT tx"]
  from run_long [OF acc ex ns new assms(2) ro, of system_route]
  have "status (fst (POST env)) = 200 \<and>
     body (fst (POST env)) =
       JObj [(ustr ''snapshot'',
              JObj [(ustr ''parties'', JStr []), (ustr ''dates'', JStr []),
                    (ustr ''term'', JStr []), (ustr ''rate'', JStr []),
                    (ustr ''deliverables'', JStr []), (ustr ''usage'', JStr [])]),
             (ustr ''risks'', JArr []),
             (ustr ''counters'', JArr []),
             (ustr ''rawText'', JStr (take 50000 tx))]"
    by (simp add: POST_run stringify_out_def stringify_snapshot_def optional_property_def
        TEXT_LIMIT_def)
  with acc ex show ?thesis by blast
qed

theorem unparseable_reply_gives_defaults_witness:
  "ChatCompletion (chat_request_of system_route (user_message example_text))
     \<in> set (snd (POST example_env_malformed)) \<and>
   chat_completions_create example_env_malformed =
     Returns (Completion [Some (ustr ''Sorry, I cannot help.'')]) \<and>
   JSON_parse example_env_malformed (reply_content (Completion [Some (ustr ''Sorry, I cannot help.'')]))
     = None \<and>
   status (fst (POST example_env_malformed)) = 200 \<and>
   lookup_path (body (fst (POST example_env_malformed))) [''snapshot'', ''parties''] = Some (JStr []) \<and>
   lookup_path (body (fst (POST example_env_malformed))) [''snapshot'', ''billing''] = None \<and>
   lookup_path (body (fst (POST example_env_malformed))) [''risks''] = Some (JArr []) \<and>
   lookup_path (body (fst (POST example_env_malformed))) [''counters''] = Some (JArr []) \<and>
   lookup_path (body (fst (POST example_env_malformed))) [''rawText''] = Some (JStr example_text)"
proof -
  let ?c = "Completion [Some (ustr ''Sorry, I cannot help.'')]"
  have b: "chat_completions_create example_env_malformed = Returns ?c"
    by (simp add: example_env_malformed_def example_env_simps)
  have c: "JSON_parse example_env_malformed (reply_content ?c) = None"
    by (simp add: example_env_malformed_def example_env_def reply_content_def)
  then have "reply_data example_env_malformed (reply_content ?c) = JObj []"
    by (simp add: reply_data_def)
  from review_out_empty_object [OF this, of "take TEXT_LIMIT example_text"]
  have "snd (run system_route example_env_malformed) =
      [PdfParse, ChatCompletion (chat_request_of system_route (user_message example_text))]"
    unfolding example_env_malformed_def by (simp add: example_run example_take)
  then have a: "ChatCompletion (chat_request_of system_route (user_message example_text))
     \<in> set (snd (POST example_env_malformed))"
    by (simp add: POST_run)
  from unparseable_reply_gives_defaults [OF a b c] obtain f tx calls where
    acc: "upload_accepted example_env_malformed f" and
    ex: "extractText example_env_malformed (Some (file_name f)) (Some (file_type f))
           = (Extracted tx, calls)" and
    res: "status (fst (POST example_env_malformed)) = 200"
      "body (fst (POST example_env_malformed)) =
       JObj [(ustr ''snapshot'',
              JObj [(ustr ''parties'', JStr []), (ustr ''dates'', JStr []),
                    (ustr ''term'', JStr []), (ustr ''rate'', JStr []),
                    (ustr ''deliverables'', JStr []), (ustr ''usage'', JStr [])]),
             (ustr ''risks'', JArr []),
             (ustr ''counters'', JArr []),
             (ustr ''rawText'', JStr (take 50000 tx))]"
    by blast
  from acc have "f = example_file"
    by (simp add: upload_accepted_def example_env_malformed_def example_env_simps)
  with ex have "tx = example_text"
    by (simp add: example_env_malformed_def example_extract)
  then have "take 50000 tx = example_text"
    by (simp add: example_text_def)
  with a b c res show ?thesis
    by (simp add: ustr_def)
qed

section \<open>Counters that mention a late fee\<close>

text \<open>
  Claim C2. In every 200 response, of either handler, \<open>counters\<close> is an array none
  of whose elements matches \<open>/late fee/i\<close>: the test of the pattern on an element
  of the response is never true, and in particular no string of the array contains
  the words in any letter case.
\<close>

theorem counters_never_match_late_fee:
  assumes "r = fst (POST env) \<or> r = fst (POST_part_000 env)"
    and "status r = 200"
  shows "\<exists>cs.
     Get (body r) (ustr ''counters'') = Some (JArr cs) \<and>
     (\<forall>e\<in>set cs. late_fee_test (numToString env) e \<noteq> Some True) \<and>
     (\<forall>s. JStr s \<in> set cs \<longrightarrow> \<not> regex_test late_fee s)"
proof -
  from assms have st: "status (fst (POST env)) = 200" and b: "body r = body (fst (POST env))"
    by (auto simp: part_000_status_body)
  from POST_200_full [OF st] obtain tx c out where
    ro: "review_out env c (take TEXT_LIMIT tx) = Some out" and
    body: "body (fst (POST env)) = stringify_out (isFinite env) out"
    by blast
  let ?cs = "map (stringify_value (isFinite env)) (counters out)"
  have 1: "Get (body r) (ustr ''counters'') = Some (JArr ?cs)"
    by (simp add: b body Get_stringify_out)
  have kept: "\<forall>c\<in>set (counters out). late_fee_test (numToString env) c = Some False"
    by (simp add: review_out_D(3) [OF ro])
  have 2: "\<forall>e\<in>set ?cs. late_fee_test (numToString env) e \<noteq> Some True"
  proof
    fix e assume "e \<in> set ?cs"
    then obtain c' where c': "c' \<in> set (counters out)" "e = stringify_value (isFinite env) c'"
      by auto
    from kept c'(1) have "late_fee_test (numToString env) c' = Some False" by blast
    from late_fee_test_stringify_value [OF this] c'(2)
    show "late_fee_test (numToString env) e \<noteq> Some True" by simp
  qed
  have 3: "\<forall>s. JStr s \<in> set ?cs \<longrightarrow> \<not> regex_test late_fee s"
  proof (intro allI impI)
    fix s assume "JStr s \<in> set ?cs"
    with 2 have "late_fee_test (numToString env) (JStr s) \<noteq> Some True" by blast
    then show "\<not> regex_test late_fee s" by (simp add: late_fee_test_JStr)
  qed
  from 1 2 3 show ?thesis by blast
qed

theorem counters_never_match_late_fee_witness:
  "status (fst (POST example_env_full)) = 200 \<and>
   lookup_path (reply_data example_env_full example_reply) [''counters''] =
     Some (JArr [JStr (ustr ''Shorten term''), JStr (ustr ''Add a Late Fee of 5%'')]) \<and>
   (\<exists>cs.
      Get (body (fst (POST example_env_full))) (ustr ''counters'') = Some (JArr cs) \<and>
      (\<forall>e\<in>set cs. late_fee_test (numToString example_env_full) e \<noteq> Some True) \<and>
      (\<forall>s. JStr s \<in> set cs \<longrightarrow> \<not> regex_test late_fee s)) \<and>
   Get (body (fst (POST example_env_full))) (ustr ''counters'') =
     Some (JArr [JStr (ustr ''Shorten term'')])"
proof -
  have st: "status (fst (POST example_env_full)) = 200"
    by (simp add: example_full_POST)
  have d: "lookup_path (reply_data example_env_full example_reply) [''counters''] =
     Some (JArr [JStr (ustr ''Shorten term''), JStr (ustr ''Add a Late Fee of 5%'')])"
    by (simp add: reply_data_def example_env_full_def example_env_def example_data_def ustr_def)
  have g: "Get (body (fst (POST example_env_full))) (ustr ''counters'') =
     Some (JArr [JStr (ustr ''Shorten term'')])"
    by (simp add: example_full_POST Get_stringify_out)
  from counters_never_match_late_fee [of "fst (POST example_env_full)" example_env_full, OF _ st]
    st d g show ?thesis by simp
qed

section \<open>The list of risks\<close>

text \<open>
  Claim C9, as the code has it. The handler does not look at the elements of
  \<open>risks\<close>. In every 200 response \<open>risks\<close> is an ordered list: the elements of the
  array \<open>risks\<close> of the reply, in their order, as \<open>JSON.stringify\<close> writes them, and
  the empty list when the reply has no array there. When every element of the
  reply's array has a string \<open>label\<close>, a \<open>level\<close> among \<open>Low\<close>, \<open>Med\<close>, \<open>High\<close> and a
  \<open>note\<close> that is absent or a string, so has every element of the response's.
\<close>

theorem risks_are_the_reply_risks:
  assumes "status (fst (POST env)) = 200"
    and "chat_completions_create env = Returns c"
  shows "Get (body (fst (POST env))) (ustr ''risks'') =
           Some (JArr (map (stringify_value (isFinite env))
                   (array_or_empty (Get (reply_data env (reply_content c)) (ustr ''risks''))))) \<and>
         (list_all risk_ok (array_or_empty (Get (reply_data env (reply_content c)) (ustr ''risks'')))
            \<longrightarrow> list_all risk_ok
                  (map (stringify_value (isFinite env))
                     (array_or_empty (Get (reply_data env (reply_content c)) (ustr ''risks'')))))"
proof -
  from POST_200_full [OF assms(1)] obtain tx c' out where
    c': "chat_completions_create env = Returns c'" and
    ro: "review_out env c' (take TEXT_LIMIT tx) = Some out" and
    body: "body (fst (POST env)) = stringify_out (isFinite env) out"
    by blast
  from c' assms(2) have "c' = c" by simp
  with ro body show ?thesis
    by (auto simp: Get_stringify_out review_out_D(2) list_all_iff risk_ok_stringify_value)
qed

theorem risks_are_the_reply_risks_witness:
  "status (fst (POST example_env_full)) = 200 \<and>
   chat_completions_create example_env_full = Returns (Completion [Some example_reply]) \<and>
   list_all risk_ok
     (array_or_empty (Get (reply_data example_env_full
        (reply_content (Completion [Some example_reply]))) (ustr ''risks''))) \<and>
   Get (body (fst (POST example_env_full))) (ustr ''risks'') =
     Some (JArr [JObj [(ustr ''label'', JStr (ustr ''Exclusivity'')),
                       (ustr ''level'', JStr (ustr ''High'')),
                       (ustr ''note'', JStr (ustr ''1 year''))]]) \<and>
   list_all risk_ok
     (map (stringify_value (isFinite example_env_full))
        (array_or_empty (Get (reply_data example_env_full
           (reply_content (Completion [Some example_reply]))) (ustr ''risks''))))"
proof -
  have st: "status (fst (POST example_env_full)) = 200"
    by (simp add: example_full_POST)
  have c: "chat_completions_create example_env_full = Returns (Completion [Some example_reply])"
    by (simp add: example_env_full_def example_env_simps)
  have d: "reply_data example_env_full (reply_content (Completion [Some example_reply])) = example_data"
    unfolding example_env_full_def by (simp add: example_reply_data)
  have rs: "array_or_empty (Get example_data (ustr ''risks'')) =
      [JObj [(ustr ''label'', JStr (ustr ''Exclusivity'')),
             (ustr ''level'', JStr (ustr ''High'')),
             (ustr ''note'', JStr (ustr ''1 year''))]]"
    by (simp add: example_data_def array_or_empty_def ustr_def)
  have ok: "list_all risk_ok (array_or_empty (Get example_data (ustr ''risks'')))"
    unfolding rs by (simp add: risk_ok_def ustr_def)
  from risks_are_the_reply_risks [OF st c] st c ok show ?thesis
    by (simp add: d rs)
qed

text \<open>
  Claim C9 as stated fails for the reply \<open>{"risks":["high"]}\<close>: the response is 200
  and its \<open>risks\<close> holds the string \<open>high\<close>, which has no label and no level.
\<close>

theorem risks_unchecked_counterexample:
  "status (fst (POST example_env_bad_risk)) = 200 \<and>
   lookup_path (body (fst (POST example_env_bad_risk))) [''risks''] =
     Some (JArr [JStr (ustr ''high'')]) \<and>
   \<not> risk_ok (JStr (ustr ''high'') :: unit json)"
proof -
  let ?c = \<open>Completion [Some (ustr ''{"risks":["high"]}'')]\<close>
  have d: "reply_data example_env_bad_risk (reply_content ?c) =
           JObj [(ustr ''risks'', JArr [JStr (ustr ''high'')])]"
    unfolding example_env_bad_risk_def by (simp add: example_reply_data)
  have ro: "review_out example_env_bad_risk ?c t =
     Some \<lparr> snapshot = \<lparr> parties = [], dates = [], term = [], rate = [], deliverables = [],
                          usage = [], brandBrief = None, additionalReqs = None, billing = None \<rparr>,
            risks = [JStr (ustr ''high'')], counters = [], rawText = t \<rparr>" for t
  proof -
    have g: "Get (JObj [(ustr ''risks'', JArr [JStr (ustr ''high'')])] :: unit json) (ustr ''snapshot'') = None"
      "Get (JObj [(ustr ''risks'', JArr [JStr (ustr ''high'')])] :: unit json) (ustr ''counters'') = None"
      "Get (JObj [(ustr ''risks'', JArr [JStr (ustr ''high'')])] :: unit json) (ustr ''risks'') =
         Some (JArr [JStr (ustr ''high'')])"
      by (simp_all add: ustr_def)
    have e: "Get (JObj [] :: unit json) k = None" for k
      by simp
    show ?thesis
      by (simp add: review_out_def d optGet_Some g e s_normalizeSnapshot_def s_cleanStr_def
          orUndefined_def array_or_empty_def Let_def del: Get.simps)
  qed
  from example_run [OF ro [unfolded example_env_bad_risk_def], of system_route]
  have "fst (POST example_env_bad_risk) =
      \<lparr> status = 200,
        headers = [(''Content-Type'', ''application/json''),
                   (''Cache-Control'', ''no-store, max-age=0'')],
        body = stringify_out (\<lambda>n. True)
          \<lparr> snapshot = \<lparr> parties = [], dates = [], term = [], rate = [], deliverables = [],
                          usage = [], brandBrief = None, additionalReqs = None, billing = None \<rparr>,
            risks = [JStr (ustr ''high'')], counters = [],
            rawText = take TEXT_LIMIT example_text \<rparr> \<rparr>"
    by (simp add: POST_run example_env_bad_risk_def example_env_simps)
  then show ?thesis
    by (simp add: Get_stringify_out risk_ok_def)
qed

section \<open>The fields of the snapshot\<close>

text \<open>
  Claim C1, as the code has it. In every 200 response the snapshot has the six
  mandatory fields \<open>parties\<close>, \<open>dates\<close>, \<open>term\<close>, \<open>rate\<close>, \<open>deliverables\<close> and
  \<open>usage\<close>, each a string; each of the optional fields \<open>brandBrief\<close>,
  \<open>additionalReqs\<close> and \<open>billing\<close> is either absent (reading it gives
  \<open>undefined\<close>) or a string that is not empty; and every property the snapshot has
  is a string, so none is \<open>null\<close>.
\<close>

theorem snapshot_fields_are_strings_or_absent:
  assumes "status (fst (POST env)) = 200"
  shows "\<exists>snap. Get (body (fst (POST env))) (ustr ''snapshot'') = Some snap \<and>
     (\<forall>k\<in>set mandatory_fields. \<exists>s. Get snap (ustr k) = Some (JStr s)) \<and>
     (\<forall>k\<in>set optional_fields.
         Get snap (ustr k) = None \<or> (\<exists>s. s \<noteq> [] \<and> Get snap (ustr k) = Some (JStr s))) \<and>
     (\<forall>k v. Get snap k = Some v \<longrightarrow> is_string v)"
proof -
  from POST_200_full [OF assms] obtain tx c out where
    ro: "review_out env c (take TEXT_LIMIT tx) = Some out" and
    body: "body (fst (POST env)) = stringify_out (isFinite env) out"
    by blast
  let ?snap = "stringify_snapshot (snapshot out)"
  have 1: "Get (body (fst (POST env))) (ustr ''snapshot'') = Some ?snap"
    by (simp add: body Get_stringify_out)
  have 2: "\<forall>k\<in>set mandatory_fields. \<exists>s. Get ?snap (ustr k) = Some (JStr s)"
    by (simp add: review_out_D(1) [OF ro] Get_normalized_mandatory)
  have 3: "\<forall>k\<in>set optional_fields.
         Get ?snap (ustr k) = None \<or> (\<exists>s. s \<noteq> [] \<and> Get ?snap (ustr k) = Some (JStr s))"
  proof
    fix k assume k: "k \<in> set optional_fields"
    let ?x = "s_cleanStr (numToString env)
       (optGet (Some (case Get (reply_data env (reply_content c)) (ustr ''snapshot'') of
                      None \<Rightarrow> JObj [] | Some JNull \<Rightarrow> JObj [] | Some v \<Rightarrow> v)) (ustr k))"
    from orUndefined_cases [of ?x]
    show "Get ?snap (ustr k) = None \<or> (\<exists>s. s \<noteq> [] \<and> Get ?snap (ustr k) = Some (JStr s))"
      by (auto simp: review_out_D(1) [OF ro] Get_normalized_optional [OF k])
  qed
  have 4: "\<forall>k v. Get ?snap k = Some v \<longrightarrow> is_string v"
    using stringify_snapshot_values by blast
  from 1 2 3 4 show ?thesis by blast
qed

theorem snapshot_fields_are_strings_or_absent_witness:
  "status (fst (POST example_env_full)) = 200 \<and>
   (\<exists>snap. Get (body (fst (POST example_env_full))) (ustr ''snapshot'') = Some snap \<and>
     (\<forall>k\<in>set mandatory_fields. \<exists>s. Get snap (ustr k) = Some (JStr s)) \<and>
     (\<forall>k\<in>set optional_fields.
         Get snap (ustr k) = None \<or> (\<exists>s. s \<noteq> [] \<and> Get snap (ustr k) = Some (JStr s))) \<and>
     (\<forall>k v. Get snap k = Some v \<longrightarrow> is_string v)) \<and>
   lookup_path (body (fst (POST example_env_full))) [''snapshot'', ''parties''] =
     Some (JStr (ustr ''Acme and Jane'')) \<and>
   lookup_path (body (fst (POST example_env_full))) [''snapshot'', ''billing''] =
     Some (JStr (ustr ''Net 30'')) \<and>
   lookup_path (body (fst (POST example_env_full))) [''snapshot'', ''additionalReqs''] = None"
proof -
  have st: "status (fst (POST example_env_full)) = 200"
    by (simp add: example_full_POST)
  have l: "lookup_path (body (fst (POST example_env_full))) [''snapshot'', ''parties''] =
     Some (JStr (ustr ''Acme and Jane''))"
   "lookup_path (body (fst (POST example_env_full))) [''snapshot'', ''billing''] =
     Some (JStr (ustr ''Net 30''))"
   "lookup_path (body (fst (POST example_env_full))) [''snapshot'', ''additionalReqs''] = None"
    by (simp_all add: example_full_POST Get_stringify_out Get_stringify_snapshot)
  from snapshot_fields_are_strings_or_absent [OF st] st l show ?thesis by simp
qed

text \<open>
  Claim C1 as stated fails for the reply \<open>{}\<close>: the response is 200 and its
  snapshot has no \<open>brandBrief\<close>.
\<close>

theorem optional_field_absent_counterexample:
  "status (fst (POST example_env_empty)) = 200 \<and>
   lookup_path (body (fst (POST example_env_empty))) [''snapshot'', ''brandBrief''] = None"
  by (simp add: example_empty_POST Get_stringify_out Get_stringify_snapshot)

section \<open>Normalisation of one value\<close>

text \<open>
  Claim C3. \<open>s_cleanStr\<close> maps a string to itself, \<open>undefined\<close> and \<open>null\<close> to the
  empty string, and every other value to its string form, or to the empty string
  when the conversion throws; and each mandatory field of the normalised snapshot,
  as it is written into the response, is the string \<open>s_cleanStr\<close> gives for that
  property of the input, never \<open>null\<close>.
\<close>

theorem normalization_gives_strings:
  fixes nts :: "'n \<Rightarrow> jsstring"
  shows "s_cleanStr nts (Some (JStr x)) = x \<and>
   s_cleanStr nts None = [] \<and>
   s_cleanStr nts (Some JNull) = [] \<and>
   (\<forall>v. \<not> is_string v \<and> v \<noteq> JNull \<longrightarrow>
        s_cleanStr nts (Some v) = (case ToString nts v of Some t \<Rightarrow> t | None \<Rightarrow> [])) \<and>
   (\<forall>k\<in>set mandatory_fields.
        Get (stringify_snapshot (s_normalizeSnapshot nts s) :: 'n json) (ustr k) =
          Some (JStr (s_cleanStr nts (optGet s (ustr k)))))"
proof -
  have "s_cleanStr nts (Some v) = (case ToString nts v of Some t \<Rightarrow> t | None \<Rightarrow> [])"
    if "\<not> is_string v \<and> v \<noteq> JNull" for v
    using that by (cases v) (simp_all add: s_cleanStr_def)
  then show ?thesis
    by (simp add: s_cleanStr_def Get_normalized_mandatory)
qed

theorem normalization_gives_strings_witness:
  "s_cleanStr (\<lambda>n. ustr ''0'') (Some (JStr (ustr ''Acme'') :: unit json)) = ustr ''Acme'' \<and>
   \<not> is_string (JArr [JStr (ustr ''a''), JNull, JBool True] :: unit json) \<and>
   (JArr [JStr (ustr ''a''), JNull, JBool True] :: unit json) \<noteq> JNull \<and>
   s_cleanStr (\<lambda>n. ustr ''0'') (Some (JArr [JStr (ustr ''a''), JNull, JBool True] :: unit json)) =
     ustr ''a,,true'' \<and>
   set mandatory_fields \<noteq> {} \<and>
   map (\<lambda>k. Get (stringify_snapshot
                  (s_normalizeSnapshot (\<lambda>n. ustr ''0'') (Some example_odd_snapshot)) :: unit json)
            (ustr k)) mandatory_fields =
     [Some (JStr (ustr ''0'')), Some (JStr []), Some (JStr (ustr ''a,,true'')),
      Some (JStr (ustr ''false'')), Some (JStr []), Some (JStr (ustr ''[object Object]''))] \<and>
   lookup_path (stringify_snapshot (s_normalizeSnapshot (\<lambda>n. ustr ''0'') (Some example_odd_snapshot)) :: unit json)
     [''billing''] = None"
proof -
  let ?nts = "\<lambda>n::unit. ustr ''0''"
  note t = normalization_gives_strings [of ?nts "ustr ''Acme''" "Some example_odd_snapshot"]
  have g: "optGet (Some example_odd_snapshot) (ustr ''parties'') = Some (JNum ())"
    "optGet (Some example_odd_snapshot) (ustr ''dates'') = Some JNull"
    "optGet (Some example_odd_snapshot) (ustr ''term'') =
       Some (JArr [JStr (ustr ''a''), JNull, JBool True])"
    "optGet (Some example_odd_snapshot) (ustr ''rate'') = Some (JBool False)"
    "optGet (Some example_odd_snapshot) (ustr ''deliverables'') = None"
    "optGet (Some example_odd_snapshot) (ustr ''usage'') = Some (JObj [(ustr ''x'', JNull)])"
    "optGet (Some example_odd_snapshot) (ustr ''billing'') = Some (JObj [(ustr ''toString'', JNull)])"
    by (simp_all add: example_odd_snapshot_def ustr_def)
  from t have q: "s_cleanStr ?nts (Some v) = (case ToString ?nts v of Some t \<Rightarrow> t | None \<Rightarrow> [])"
    if "\<not> is_string v \<and> v \<noteq> JNull" for v :: "unit json"
    using that by blast
  have a: "s_cleanStr ?nts (Some (JArr [JStr (ustr ''a''), JNull, JBool True] :: unit json)) =
     ustr ''a,,true''"
    using q [of "JArr [JStr (ustr ''a''), JNull, JBool True]"] by (simp add: ustr_def)
  have c: "s_cleanStr ?nts (Some (JNum ())) = ustr ''0''"
    "s_cleanStr ?nts (Some (JNull :: unit json)) = []"
    "s_cleanStr ?nts (Some (JBool False :: unit json)) = ustr ''false''"
    "s_cleanStr ?nts (None :: unit json option) = []"
    "s_cleanStr ?nts (Some (JObj [(ustr ''x'', JNull)] :: unit json)) = ustr ''[object Object]''"
    "s_cleanStr ?nts (Some (JObj [(ustr ''toString'', JNull)] :: unit json)) = []"
    by (simp_all add: s_cleanStr_def ustr_def)
  have m: "map (\<lambda>k. Get (stringify_snapshot
                  (s_normalizeSnapshot ?nts (Some example_odd_snapshot)) :: unit json)
            (ustr k)) mandatory_fields =
     map (\<lambda>k. Some (JStr (s_cleanStr ?nts (optGet (Some example_odd_snapshot) (ustr k)))))
       mandatory_fields"
    using t by simp
  have b: "lookup_path (stringify_snapshot (s_normalizeSnapshot ?nts (Some example_odd_snapshot)) :: unit json)
     [''billing''] = None"
    by (simp add: Get_stringify_snapshot normalized_optional g c orUndefined_def)
  from t a m b show ?thesis
    by (simp add: mandatory_fields_def g a c)
qed

section \<open>A reply that follows the schema\<close>

text \<open>
  Claim C5, as the code has it. Whenever the handler has called the chat-completion
  API and the content of the completion parses to a value that follows the schema of
  the prompt, the response is 200 and, compared with the reply: the six mandatory
  snapshot fields are the same strings; an optional snapshot field is the same
  string when that string is not empty, and is absent when the reply has \<open>null\<close> or
  the empty string; \<open>risks\<close> is the same array; \<open>counters\<close> is the reply's array
  without the strings that match \<open>/late fee/i\<close>, the others in their order.
\<close>

theorem schema_reply_passes_through:
  assumes "ChatCompletion req \<in> set (snd (POST env))"
    and "chat_completions_create env = Returns c"
    and "JSON_parse env (reply_content c) = Some d"
    and "reply_schema d"
  shows "status (fst (POST env)) = 200 \<and>
     (\<forall>k\<in>set mandatory_fields.
        lookup_path (body (fst (POST env))) [''snapshot'', k] = lookup_path d [''snapshot'', k]) \<and>
     (\<forall>k\<in>set optional_fields.
        lookup_path (body (fst (POST env))) [''snapshot'', k] =
          nonempty_string_only (lookup_path d [''snapshot'', k])) \<and>
     lookup_path (body (fst (POST env))) [''risks''] = lookup_path d [''risks''] \<and>
     (\<exists>cs. lookup_path d [''counters''] = Some (JArr cs) \<and>
           lookup_path (body (fst (POST env))) [''counters''] = Some (JArr (filter no_late_fee cs)))"
proof -
  from assms(1) have "ChatCompletion req \<in> set (snd (run system_route env))"
    by (simp add: POST_run)
  from run_called_D [OF this] obtain f tx calls where
    acc: "upload_accepted env f" and
    ex: "extractText env (Some (file_name f)) (Some (file_type f)) = (Extracted tx, calls)" and
    ns: "\<not> (tx = [] \<or> length (trim tx) < 20)" and
    new: "OpenAI_new env = Returns ()"
    by blast
  from assms(3) have d: "reply_data env (reply_content c) = d"
    by (simp add: reply_data_def)
  from assms(4) obtain snap rs cs where
    gs: "Get d (ustr ''snapshot'') = Some snap" and ss: "snapshot_schema snap" and
    gr: "Get d (ustr ''risks'') = Some (JArr rs)" and rs: "list_all risk_schema rs" and
    gc: "Get d (ustr ''counters'') = Some (JArr cs)" and cs: "list_all is_string cs"
    by (auto simp: reply_schema_def split: option.splits json.splits)
  from cs have "\<forall>x\<in>set cs. late_fee_test (numToString env) x \<noteq> None"
    by (auto simp: list_all_iff is_string_conv late_fee_test_JStr)
  then have "\<forall>x\<in>set (array_or_empty (Get (reply_data env (reply_content c)) (ustr ''counters''))).
             late_fee_test (numToString env) x \<noteq> None"
    by (simp add: d gc array_or_empty_def)
  from review_out_total [OF this, of "take TEXT_LIMIT tx"] obtain out where
    ro: "review_out env c (take TEXT_LIMIT tx) = Some out" by blast
  from run_long [OF acc ex ns new assms(2) ro, of system_route]
  have st: "status (fst (POST env)) = 200"
    and body: "body (fst (POST env)) = stringify_out (isFinite env) out"
    by (simp_all add: POST_run)
  from snapshot_schema_mandatory [OF ss, of "''parties''"] have nn: "snap \<noteq> JNull"
    by (auto simp: mandatory_fields_def)
  then have sn: "snapshot out = s_normalizeSnapshot (numToString env) (Some snap)"
    by (cases snap) (simp_all add: review_out_D(1) [OF ro] d gs)
  have man: "lookup_path (body (fst (POST env))) [''snapshot'', k] = lookup_path d [''snapshot'', k]"
    if k: "k \<in> set mandatory_fields" for k
  proof -
    from snapshot_schema_mandatory [OF ss k] obtain s where "Get snap (ustr k) = Some (JStr s)"
      by blast
    then show ?thesis
      by (simp add: body Get_stringify_out sn Get_normalized_mandatory [OF k] gs optGet_Some
          s_cleanStr_schema)
  qed
  have opt: "lookup_path (body (fst (POST env))) [''snapshot'', k] =
          nonempty_string_only (lookup_path d [''snapshot'', k])"
    if k: "k \<in> set optional_fields" for k
  proof -
    from snapshot_schema_optional [OF ss k] show ?thesis
      by (auto simp: body Get_stringify_out sn Get_normalized_optional [OF k] gs optGet_Some
          s_cleanStr_schema orUndefined_def nonempty_string_only_def)
  qed
  have ri: "lookup_path (body (fst (POST env))) [''risks''] = lookup_path d [''risks'']"
    by (simp add: body Get_stringify_out review_out_D(2) [OF ro] d gr array_or_empty_def
        stringify_value_risks [OF rs])
  have "list_all is_string (filter no_late_fee cs)"
    using cs by (simp add: list_all_iff)
  then have co: "lookup_path (body (fst (POST env))) [''counters''] =
      Some (JArr (filter no_late_fee cs))"
    by (simp add: body Get_stringify_out review_out_D(3) [OF ro] d gc array_or_empty_def
        filter_strings [OF cs] stringify_value_strings)
  from st man opt ri co gc show ?thesis by simp
qed

theorem schema_reply_passes_through_witness:
  "ChatCompletion (chat_request_of system_route (user_message example_text))
     \<in> set (snd (POST example_env_full)) \<and>
   chat_completions_create example_env_full = Returns (Completion [Some example_reply]) \<and>
   JSON_parse example_env_full (reply_content (Completion [Some example_reply])) = Some example_data \<and>
   reply_schema example_data \<and>
   status (fst (POST example_env_full)) = 200 \<and>
   map (\<lambda>k. lookup_path (body (fst (POST example_env_full))) [''snapshot'', k]) mandatory_fields =
     map (\<lambda>k. lookup_path example_data [''snapshot'', k]) mandatory_fields \<and>
   lookup_path (body (fst (POST example_env_full))) [''snapshot'', ''parties''] =
     Some (JStr (ustr ''Acme and Jane'')) \<and>
   lookup_path (body (fst (POST example_env_full))) [''risks''] = lookup_path example_data [''risks''] \<and>
   lookup_path (body (fst (POST example_env_full))) [''counters''] =
     Some (JArr [JStr (ustr ''Shorten term'')])"
proof -
  have a: "ChatCompletion (chat_request_of system_route (user_message example_text))
     \<in> set (snd (POST example_env_full))"
    by (simp add: example_full_POST)
  have b: "chat_completions_create example_env_full = Returns (Completion [Some example_reply])"
    by (simp add: example_env_full_def example_env_simps)
  have c: "JSON_parse example_env_full (reply_content (Completion [Some example_reply])) =
      Some example_data"
    by (simp add: example_env_full_def example_env_def reply_content_def)
  note t = schema_reply_passes_through [OF a b c example_data_schema]
  from t have m: "map (\<lambda>k. lookup_path (body (fst (POST example_env_full))) [''snapshot'', k])
        mandatory_fields =
      map (\<lambda>k. lookup_path example_data [''snapshot'', k]) mandatory_fields"
    by simp
  have p: "lookup_path (body (fst (POST example_env_full))) [''snapshot'', ''parties''] =
     Some (JStr (ustr ''Acme and Jane''))"
    by (simp add: example_full_POST Get_stringify_out Get_stringify_snapshot)
  from t obtain cs where
    cs: "lookup_path example_data [''counters''] = Some (JArr cs)"
      "lookup_path (body (fst (POST example_env_full))) [''counters''] =
         Some (JArr (filter no_late_fee cs))"
    by blast
  from cs(1) have "cs = [JStr (ustr ''Shorten term''), JStr (ustr ''Add a Late Fee of 5%'')]"
    by (simp add: example_data_counters del: lookup_path.simps)
  with cs(2) have co: "lookup_path (body (fst (POST example_env_full))) [''counters''] =
     Some (JArr [JStr (ustr ''Shorten term'')])"
    by (simp add: late_fee_examples del: lookup_path.simps)
  from t a b c example_data_schema m p co show ?thesis by simp
qed

text \<open>
  Claim C5 as stated fails for a reply that follows the schema and has the counter
  \<open>Add a Late Fee of 5%\<close>: the response leaves that counter out (and leaves out the
  field \<open>additionalReqs\<close>, which the reply gives as the empty string).
\<close>

theorem late_fee_counter_dropped_counterexample:
  "chat_completions_create example_env_full = Returns (Completion [Some example_reply]) \<and>
   JSON_parse example_env_full (reply_content (Completion [Some example_reply])) = Some example_data \<and>
   reply_schema example_data \<and>
   status (fst (POST example_env_full)) = 200 \<and>
   lookup_path example_data [''counters''] =
     Some (JArr [JStr (ustr ''Shorten term''), JStr (ustr ''Add a Late Fee of 5%'')]) \<and>
   lookup_path (body (fst (POST example_env_full))) [''counters''] =
     Some (JArr [JStr (ustr ''Shorten term'')]) \<and>
   lookup_path example_data [''snapshot'', ''additionalReqs''] = Some (JStr []) \<and>
   lookup_path (body (fst (POST example_env_full))) [''snapshot'', ''additionalReqs''] = None"
proof -
  have b: "chat_completions_create example_env_full = Returns (Completion [Some example_reply])"
    by (simp add: example_env_full_def example_env_simps)
  have c: "JSON_parse example_env_full (reply_content (Completion [Some example_reply])) =
      Some example_data"
    by (simp add: example_env_full_def example_env_def reply_content_def)
  have e: "lookup_path example_data [''snapshot'', ''additionalReqs''] = Some (JStr [])"
    by (simp add: example_data_def ustr_def)
  have f: "lookup_path (body (fst (POST example_env_full))) [''counters''] =
     Some (JArr [JStr (ustr ''Shorten term'')])"
    "lookup_path (body (fst (POST example_env_full))) [''snapshot'', ''additionalReqs''] = None"
    "status (fst (POST example_env_full)) = 200"
    by (simp_all add: example_full_POST Get_stringify_out Get_stringify_snapshot)
  from b c e f example_data_schema example_data_counters show ?thesis by simp
qed

end
